theory Spec2Isabelle
  imports Main "HOL-Library.Word" "HOL-Library.Signed_Division"
begin

unbundle bit_operations_syntax

section \<open>Machine types of the Go source\<close>

text \<open>
  The source computes file lengths and term lengths in \<open>int64\<close>, buffer capacities in
  \<open>int32\<close> and addresses in \<open>uintptr\<close> (64 bits on the platforms the client runs on;
  Go's \<open>int\<close> has the same width there). They are words, so that every conversion and
  every wrap-around of the source is one of the model. \<open>sint\<close> reads a signed one.
\<close>

type_synonym int64 = "64 word"
type_synonym int32 = "32 word"
type_synonym uintptr = "64 word"

text \<open>A Go \<open>error\<close> value is identified by its message.\<close>

type_synonym error = string

text \<open>
  What a \<open>panic\<close> carries: an error value (\<open>panic(err)\<close>), a string
  (\<open>panic("...")\<close>), or the runtime's nil-pointer dereference.
\<close>

datatype panic = PanicError error | PanicString string | PanicNilDereference

text \<open>Go's \<open>/\<close> on \<open>int64\<close> truncates towards zero.\<close>

definition int64_div :: "int64 \<Rightarrow> int64 \<Rightarrow> int64" where
  "int64_div a b = word_of_int (sint a sdiv sint b)"

section \<open>The packages the log buffers are built on\<close>

subsection \<open>memmap\<close>

text \<open>
  Modelled from the spec: package \<open>memmap\<close> is not among the sources. Section 4.A gives
  \<open>map_existing(path, offset, length)\<close> "returning a handle with a raw base address and
  length", failing with an I/O error, and \<open>close\<close>, which releases the mapping.
\<close>

record File =
  memoryPtr :: uintptr
  mappedLength :: int64

text \<open>
  What the process has done so far, oldest first: the mappings and unmappings it asked of
  the operating system with the answer it got, the closing of a client conductor with
  its result, and the calls of the context's error handler.
\<close>

datatype event =
    Mapped string int64 int64 "error + File"
  | Unmapped File "error option"
  | ConductorClosed "error option"
  | ErrorHandled error

text \<open>
  The operating system and the absent bodies of \<open>memmap\<close> are parameters of the model.
  The answer to a request may depend on everything that happened before it. A method of
  \<open>*memmap.File\<close> called on a nil pointer either panics or answers something: both are
  covered by \<open>nilGetMemoryPtr\<close> and \<open>nilClose\<close>.
\<close>

record memmap =
  GetFileSize :: "string \<Rightarrow> panic + int64"
  MapExisting :: "event list \<Rightarrow> string \<Rightarrow> int64 \<Rightarrow> int64 \<Rightarrow> error + File"
  munmap :: "event list \<Rightarrow> File \<Rightarrow> error option"
  nilGetMemoryPtr :: "panic + uintptr"
  nilClose :: "panic + error option"

text \<open>\<open>(*File).GetMemoryPtr\<close>; a \<open>*File\<close> is \<open>None\<close> when it is nil.\<close>

definition GetMemoryPtr :: "memmap \<Rightarrow> File option \<Rightarrow> panic + uintptr" where
  "GetMemoryPtr os f = (case f of None \<Rightarrow> nilGetMemoryPtr os | Some m \<Rightarrow> Inr (memoryPtr m))"

text \<open>\<open>(*File).Close\<close>: unmaps the region and reports what the system answered.\<close>

definition File_Close :: "memmap \<Rightarrow> event list \<Rightarrow> File option \<Rightarrow> (panic + error option) \<times> event list" where
  "File_Close os h f =
     (case f of
        None \<Rightarrow> (nilClose os, h)
      | Some m \<Rightarrow> (let r = munmap os h m in (Inr r, h @ [Unmapped m r])))"

subsection \<open>atomic.Buffer\<close>

text \<open>
  Modelled from the spec: package \<open>atomic\<close> is not among the sources. Section 4.B: a
  buffer is "a view \<open>(base, capacity)\<close> over mapped memory"; \<open>Wrap\<close> sets both. The zero
  value of the struct is the unwrapped buffer.
\<close>

record Buffer =
  bufferPtr :: uintptr
  capacity :: int32

definition Buffer_zero :: Buffer where
  "Buffer_zero = \<lparr>bufferPtr = 0, capacity = 0\<rparr>"

definition Buffer_Wrap :: "uintptr \<Rightarrow> int32 \<Rightarrow> Buffer" where
  "Buffer_Wrap p n = \<lparr>bufferPtr = p, capacity = n\<rparr>"

subsection \<open>The descriptor constants and checks of package logbuffer\<close>

text \<open>
  Modelled from the spec: the file of package \<open>logbuffer\<close> that declares
  \<open>PartitionCount\<close>, \<open>LogMetaDataSectionIndex\<close>, \<open>logMetaDataLength\<close>,
  \<open>maxSingleMappingSize\<close>, \<open>computeTermLength\<close> and \<open>checkTermLength\<close> is not among
  the sources. Section 3 fixes \<open>PartitionCount = 3\<close>; the comment on \<open>Buffer\<close> in the
  source says the last buffer of the array is the metadata buffer. The lengths and the
  bounds on a term length are not given anywhere, so they are parameters.
\<close>

definition PartitionCount :: nat where
  "PartitionCount = 3"

definition LogMetaDataSectionIndex :: nat where
  "LogMetaDataSectionIndex = PartitionCount"

record descriptor =
  logMetaDataLength :: int32
  maxSingleMappingSize :: int64
  termMinLength :: int64
  termMaxLength :: int64

text \<open>
  Modelled from the spec: section 4.C step 2,
  \<open>termLength = (logLength - logMetaDataLength) / PartitionCount\<close>, in the \<open>int64\<close>
  arithmetic of the caller.
\<close>

definition computeTermLength :: "descriptor \<Rightarrow> int64 \<Rightarrow> int64" where
  "computeTermLength d logLength =
     int64_div (logLength - scast (logMetaDataLength d)) (word_of_nat PartitionCount)"

text \<open>A positive \<open>int64\<close> that is a power of two is one of \<open>2 ^ 0, ..., 2 ^ 62\<close>.\<close>

definition isPowerOfTwo :: "int64 \<Rightarrow> bool" where
  "isPowerOfTwo v = (\<exists>k \<in> {0 ..< 63 :: nat}. sint v = 2 ^ k)"

text \<open>
  Modelled from the spec: section 4.C step 2, "validate via \<open>checkTermLength\<close>
  (power-of-two, within bounds)". The caller ignores any result, so a rejection is a
  panic; section 7 names the error \<open>InvalidTermLength\<close>.
\<close>

definition checkTermLength :: "descriptor \<Rightarrow> int64 \<Rightarrow> panic + unit" where
  "checkTermLength d termLength =
     (if sint (termMinLength d) \<le> sint termLength \<and> sint termLength \<le> sint (termMaxLength d)
         \<and> isPowerOfTwo termLength
      then Inr () else Inl (PanicString ''InvalidTermLength''))"

subsection \<open>LogBufferMetaData\<close>

text \<open>
  Modelled from the spec: the flyweight \<open>LogBufferMetaData\<close> is not among the sources.
  Section 4.C: "the metadata buffer is wrapped by a typed overlay". Its \<open>Wrap\<close> is given a
  pointer to a buffer and an offset. The pointer is into the \<open>buffers\<close> array of the same
  \<open>LogBuffers\<close>, so it is the index of that element; \<open>None\<close> is the nil of the zero
  value.
\<close>

record LogBufferMetaData =
  metaBuffer :: "nat option"
  metaOffset :: int

definition LogBufferMetaData_zero :: LogBufferMetaData where
  "LogBufferMetaData_zero = \<lparr>metaBuffer = None, metaOffset = 0\<rparr>"

definition LogBufferMetaData_Wrap :: "nat \<Rightarrow> int \<Rightarrow> LogBufferMetaData" where
  "LogBufferMetaData_Wrap b off = \<lparr>metaBuffer = Some b, metaOffset = off\<rparr>"

section \<open>LogBuffers\<close>

record LogBuffers =
  mmapFiles :: "File option list"
  buffers :: "Buffer list"
  meta :: LogBufferMetaData

text \<open>\<open>new(LogBuffers)\<close>: a nil slice, \<open>PartitionCount + 1\<close> zero buffers, a zero overlay.\<close>

definition new_LogBuffers :: LogBuffers where
  "new_LogBuffers =
     \<lparr>mmapFiles = [], buffers = replicate (PartitionCount + 1) Buffer_zero,
      meta = LogBufferMetaData_zero\<rparr>"

text \<open>\<open>buffers.buffers[i].Wrap(ptr, n)\<close>, for an index inside the array.\<close>

definition wrapBuffer :: "nat \<Rightarrow> uintptr \<Rightarrow> int32 \<Rightarrow> LogBuffers \<Rightarrow> LogBuffers" where
  "wrapBuffer i p n b = b\<lparr>buffers := (buffers b)[i := Buffer_Wrap p n]\<rparr>"

subsection \<open>Wrap, when one mapping holds the whole file\<close>

text \<open>
  The loop \<open>for i := 0; i < PartitionCount; i++\<close> of the first branch: the view of term
  \<open>i\<close> starts \<open>int64(i) * termLength\<close> bytes after the base, with capacity
  \<open>int32(termLength)\<close>.
\<close>

function carveTerms :: "uintptr \<Rightarrow> int64 \<Rightarrow> nat \<Rightarrow> LogBuffers \<Rightarrow> LogBuffers" where
  "carveTerms basePtr termLength i b =
     (if i < PartitionCount
      then carveTerms basePtr termLength (i + 1)
             (wrapBuffer i (basePtr + word_of_nat i * termLength) (ucast termLength) b)
      else b)"
  by pat_completeness auto
termination
  by (relation "measure (\<lambda>(basePtr, termLength, i, b). PartitionCount - i)") auto

definition wrapSingle ::
  "descriptor \<Rightarrow> memmap \<Rightarrow> event list \<Rightarrow> string \<Rightarrow> int64 \<Rightarrow> int64 \<Rightarrow> LogBuffers
     \<Rightarrow> (panic + LogBuffers) \<times> event list" where
  "wrapSingle d os h fileName logLength termLength b =
     (let r = MapExisting os h fileName 0 0;
          h1 = h @ [Mapped fileName 0 0 r]
      in case r of
           Inl err \<Rightarrow> (Inl (PanicError err), h1)
         | Inr mmap \<Rightarrow>
             (let b1 = b\<lparr>mmapFiles := [Some mmap]\<rparr>
              in case GetMemoryPtr os (mmapFiles b1 ! 0) of
                   Inl p \<Rightarrow> (Inl p, h1)
                 | Inr basePtr \<Rightarrow>
                     (let b2 = carveTerms basePtr termLength 0 b1;
                          ptr = basePtr + (logLength - scast (logMetaDataLength d))
                      in (Inr (wrapBuffer LogMetaDataSectionIndex ptr (logMetaDataLength d) b2), h1))))"

subsection \<open>Wrap, when every section gets a mapping of its own\<close>

text \<open>
  The loop of the second branch. Each round maps term \<open>i\<close>, appends the mapping to
  \<open>mmapFiles\<close>, and wraps buffer \<open>i\<close> at the base of \<open>mmapFiles[i+1]\<close>. An index
  outside the slice is Go's index-out-of-range panic.
\<close>

definition index_File :: "File option list \<Rightarrow> nat \<Rightarrow> panic + File option" where
  "index_File fs i = (if i < length fs then Inr (fs ! i) else Inl (PanicString ''index out of range''))"

function mapTerms ::
  "memmap \<Rightarrow> string \<Rightarrow> int64 \<Rightarrow> nat \<Rightarrow> LogBuffers \<Rightarrow> event list
     \<Rightarrow> (panic + LogBuffers) \<times> event list" where
  "mapTerms os fileName termLength i b h =
     (if i < PartitionCount
      then (let r = MapExisting os h fileName (word_of_nat i * termLength) termLength;
                h1 = h @ [Mapped fileName (word_of_nat i * termLength) termLength r]
            in case r of
                 Inl err \<Rightarrow> (Inl (PanicString ''Failed to map the log buffer''), h1)
               | Inr mmap \<Rightarrow>
                   (let b1 = b\<lparr>mmapFiles := mmapFiles b @ [Some mmap]\<rparr>
                    in case index_File (mmapFiles b1) (i + 1) of
                         Inl p \<Rightarrow> (Inl p, h1)
                       | Inr f \<Rightarrow>
                           (case GetMemoryPtr os f of
                              Inl p \<Rightarrow> (Inl p, h1)
                            | Inr basePtr \<Rightarrow>
                                mapTerms os fileName termLength (i + 1)
                                  (wrapBuffer i basePtr (ucast termLength) b1) h1)))
      else (Inr b, h))"
  by pat_completeness auto
termination
  by (relation "measure (\<lambda>(os, fileName, termLength, i, b, h). PartitionCount - i)") auto

definition wrapMulti ::
  "descriptor \<Rightarrow> memmap \<Rightarrow> event list \<Rightarrow> string \<Rightarrow> int64 \<Rightarrow> int64 \<Rightarrow> LogBuffers
     \<Rightarrow> (panic + LogBuffers) \<times> event list" where
  "wrapMulti d os h fileName logLength termLength b =
     (let b0 = b\<lparr>mmapFiles := replicate (PartitionCount + 1) None\<rparr>;
          metaDataSectionOffset = termLength * word_of_nat PartitionCount;
          metaDataSectionLength = logLength - metaDataSectionOffset;
          r = MapExisting os h fileName metaDataSectionOffset metaDataSectionLength;
          h1 = h @ [Mapped fileName metaDataSectionOffset metaDataSectionLength r]
      in case r of
           Inl err \<Rightarrow> (Inl (PanicString ''Failed to map the log buffer''), h1)
         | Inr mmap \<Rightarrow>
             (case mapTerms os fileName termLength 0 (b0\<lparr>mmapFiles := mmapFiles b0 @ [Some mmap]\<rparr>) h1 of
                (Inl p, h2) \<Rightarrow> (Inl p, h2)
              | (Inr b2, h2) \<Rightarrow>
                  (case index_File (mmapFiles b2) 0 of
                     Inl p \<Rightarrow> (Inl p, h2)
                   | Inr f \<Rightarrow>
                       (case GetMemoryPtr os f of
                          Inl p \<Rightarrow> (Inl p, h2)
                        | Inr metaDataBasePtr \<Rightarrow>
                            (Inr (wrapBuffer LogMetaDataSectionIndex metaDataBasePtr
                                    (logMetaDataLength d) b2), h2)))))"

subsection \<open>Wrap, Meta, Buffer, Close\<close>

definition Wrap ::
  "descriptor \<Rightarrow> memmap \<Rightarrow> event list \<Rightarrow> string \<Rightarrow> (panic + LogBuffers) \<times> event list" where
  "Wrap d os h fileName =
     (let b = new_LogBuffers
      in case GetFileSize os fileName of
           Inl p \<Rightarrow> (Inl p, h)
         | Inr logLength \<Rightarrow>
             (let termLength = computeTermLength d logLength
              in case checkTermLength d termLength of
                   Inl p \<Rightarrow> (Inl p, h)
                 | Inr _ \<Rightarrow>
                     (case (if logLength <s maxSingleMappingSize d
                            then wrapSingle d os h fileName logLength termLength b
                            else wrapMulti d os h fileName logLength termLength b) of
                        (Inl p, h1) \<Rightarrow> (Inl p, h1)
                      | (Inr b1, h1) \<Rightarrow>
                          (Inr (b1\<lparr>meta := LogBufferMetaData_Wrap PartitionCount 0\<rparr>), h1))))"

definition Meta :: "LogBuffers \<Rightarrow> LogBufferMetaData" where
  "Meta logBuffers = meta logBuffers"

text \<open>\<open>&logBuffers.buffers[index]\<close>: an index outside the array panics.\<close>

definition Buffer :: "LogBuffers \<Rightarrow> int \<Rightarrow> panic + Buffer" where
  "Buffer logBuffers index =
     (if 0 \<le> index \<and> nat index < length (buffers logBuffers)
      then Inr (buffers logBuffers ! nat index)
      else Inl (PanicString ''index out of range''))"

text \<open>
  The loop of \<open>Close\<close>: \<open>err\<close> is assigned by every round. A panic inside \<open>Close\<close> of a
  mapping leaves the loop at once.
\<close>

fun closeAll ::
  "memmap \<Rightarrow> File option list \<Rightarrow> error option \<Rightarrow> event list
     \<Rightarrow> (panic + error option) \<times> event list" where
  "closeAll os [] err h = (Inr err, h)"
| "closeAll os (mmap # rest) err h =
     (case File_Close os h mmap of
        (Inl p, h1) \<Rightarrow> (Inl p, h1)
      | (Inr err1, h1) \<Rightarrow> closeAll os rest err1 h1)"

definition Close ::
  "memmap \<Rightarrow> LogBuffers \<Rightarrow> event list \<Rightarrow> (panic + error option \<times> LogBuffers) \<times> event list" where
  "Close os logBuffers h =
     (case closeAll os (mmapFiles logBuffers) None h of
        (Inl p, h1) \<Rightarrow> (Inl p, h1)
      | (Inr err, h1) \<Rightarrow> (Inr (err, logBuffers\<lparr>mmapFiles := []\<rparr>), h1))"

section \<open>Aeron.Close\<close>

text \<open>
  Modelled from the spec: \<open>ClientConductor\<close> and \<open>Context\<close> are not among the sources.
  Of the conductor, \<open>Aeron.Close\<close> uses the result of its \<open>Close\<close>, which is a
  parameter; of the context, the \<open>errorHandler\<close> callback, whose calls are recorded.
  The fields of \<open>Aeron\<close> that \<open>Close\<close> does not touch are left out.
\<close>

record ClientConductor =
  conductorClose :: "event list \<Rightarrow> error option"

record Aeron =
  conductor :: ClientConductor
  cncFile :: "File option"

definition ClientConductor_Close :: "ClientConductor \<Rightarrow> event list \<Rightarrow> error option \<times> event list" where
  "ClientConductor_Close c h = (let r = conductorClose c h in (r, h @ [ConductorClosed r]))"

text \<open>\<open>if nil != err { aeron.context.errorHandler(err) }\<close>\<close>

definition handleIfError :: "error option \<Rightarrow> event list \<Rightarrow> event list" where
  "handleIfError err h = (case err of None \<Rightarrow> h | Some e \<Rightarrow> h @ [ErrorHandled e])"

definition Aeron_Close :: "memmap \<Rightarrow> Aeron \<Rightarrow> event list \<Rightarrow> (panic + error option) \<times> event list" where
  "Aeron_Close os aeron h =
     (case ClientConductor_Close (conductor aeron) h of
        (err, h1) \<Rightarrow>
          (let h2 = handleIfError err h1
           in case File_Close os h2 (cncFile aeron) of
                (Inl p, h3) \<Rightarrow> (Inl p, h3)
              | (Inr err1, h3) \<Rightarrow> (Inr err1, handleIfError err1 h3)))"

section \<open>Aeron.AddSubscription and Aeron.AddPublication\<close>

text \<open>
  Modelled from the spec: the methods of \<open>ClientConductor\<close> are not among the sources.
  Section 4.G: \<open>Add*\<close> "writes a command, records a pending entry, and returns the
  correlation id"; \<open>Find*\<close> "performs a single non-blocking table lookup" that answers
  the resolved object or nil. What a lookup answers depends on how far the conductor's
  own thread has got by then, so the answer to the \<open>n\<close>-th lookup of a registration is
  a parameter. The source takes no error from \<open>Find*\<close>: a lookup that fails can only
  panic. The types of subscriptions and publications are parameters too.
\<close>

record ('s, 'p) Registrations =
  AddSubscription :: "string \<Rightarrow> int32 \<Rightarrow> int64"
  FindSubscription :: "int64 \<Rightarrow> nat \<Rightarrow> panic + 's option"
  AddPublication :: "string \<Rightarrow> int32 \<Rightarrow> int64"
  FindPublication :: "int64 \<Rightarrow> nat \<Rightarrow> panic + 'p option"

text \<open>
  A Go channel, as far as the two functions use one: \<open>make(chan T, 1)\<close>, a send, which
  panics on a closed channel, blocks on a full one (\<open>None\<close>) and otherwise queues the
  value, and \<open>close\<close>, which panics on a closed channel.
\<close>

record 'a chan =
  chanCapacity :: nat
  chanQueue :: "'a list"
  chanClosed :: bool

definition make_chan :: "nat \<Rightarrow> 'a chan" where
  "make_chan n = \<lparr>chanCapacity = n, chanQueue = [], chanClosed = False\<rparr>"

definition chan_send :: "'a chan \<Rightarrow> 'a \<Rightarrow> (panic + 'a chan) option" where
  "chan_send ch v =
     (if chanClosed ch then Some (Inl (PanicString ''send on closed channel''))
      else if length (chanQueue ch) < chanCapacity ch
      then Some (Inr (ch\<lparr>chanQueue := chanQueue ch @ [v]\<rparr>))
      else None)"

definition chan_close :: "'a chan \<Rightarrow> panic + 'a chan" where
  "chan_close ch =
     (if chanClosed ch then Inl (PanicString ''close of closed channel'')
      else Inr (ch\<lparr>chanClosed := True\<rparr>))"

text \<open>
  What a goroutine does, oldest first: a lookup with its answer, a call
  \<open>idleStrategy.Idle(n)\<close>, a send on the channel, the closing of the channel.
\<close>

datatype 'a poll = Polled int64 "'a option" | Idled int | Sent 'a | ChannelClosed

text \<open>
  How a goroutine stands after a number of rounds of its loop: still in the loop, ended
  by a panic, blocked on its send, or returned, leaving the channel as given.
\<close>

datatype 'a goroutine = StillPolling | Panicked panic | BlockedOnSend | Exited "'a chan"

text \<open>
  The loop of both goroutines,
  \<open>for x == nil { x = Find(regID); if x == nil { Idle(0) } }\<close>.
  It may never end, so it is run for a number of rounds (\<open>fuel\<close>): the result is
  \<open>None\<close> when the loop is still running after them. \<open>n\<close> counts the lookups made
  so far.
\<close>

fun pollUntilFound ::
  "(nat \<Rightarrow> panic + 'a option) \<Rightarrow> int64 \<Rightarrow> nat \<Rightarrow> nat \<Rightarrow> 'a option \<Rightarrow> 'a poll list
     \<Rightarrow> (panic + 'a) option \<times> 'a poll list" where
  "pollUntilFound answer regID fuel n (Some v) tr = (Some (Inr v), tr)"
| "pollUntilFound answer regID 0 n None tr = (None, tr)"
| "pollUntilFound answer regID (Suc fuel) n None tr =
     (case answer n of
        Inl p \<Rightarrow> (Some (Inl p), tr)
      | Inr x \<Rightarrow>
          pollUntilFound answer regID fuel (n + 1) x
            (tr @ [Polled regID x] @ (if x = None then [Idled 0] else [])))"

text \<open>\<open>ch <- x; close(ch)\<close>\<close>

definition sendAndClose :: "'a chan \<Rightarrow> 'a \<Rightarrow> 'a poll list \<Rightarrow> 'a goroutine \<times> 'a poll list" where
  "sendAndClose ch v tr =
     (case chan_send ch v of
        None \<Rightarrow> (BlockedOnSend, tr)
      | Some (Inl p) \<Rightarrow> (Panicked p, tr)
      | Some (Inr ch1) \<Rightarrow>
          (case chan_close ch1 of
             Inl p \<Rightarrow> (Panicked p, tr @ [Sent v])
           | Inr ch2 \<Rightarrow> (Exited ch2, tr @ [Sent v, ChannelClosed])))"

text \<open>
  \<open>AddSubscription\<close>: makes the channel, registers with the conductor, starts the
  goroutine and returns the channel. The result is the channel together with the
  registration id that the goroutine captures. The goroutine is run apart from it,
  on the channel and the id.
\<close>

definition Aeron_AddSubscription ::
  "('s, 'p) Registrations \<Rightarrow> string \<Rightarrow> int32 \<Rightarrow> 's chan \<times> int64" where
  "Aeron_AddSubscription c channel streamID =
     (let ch = make_chan 1;
          regID = AddSubscription c channel streamID
      in (ch, regID))"

definition AddSubscription_goroutine ::
  "('s, 'p) Registrations \<Rightarrow> nat \<Rightarrow> int64 \<Rightarrow> 's chan \<Rightarrow> 's goroutine \<times> 's poll list" where
  "AddSubscription_goroutine c fuel regID ch =
     (case FindSubscription c regID 0 of
        Inl p \<Rightarrow> (Panicked p, [])
      | Inr subscription \<Rightarrow>
          (case pollUntilFound (FindSubscription c regID) regID fuel 1 subscription
                  [Polled regID subscription] of
             (None, tr) \<Rightarrow> (StillPolling, tr)
           | (Some (Inl p), tr) \<Rightarrow> (Panicked p, tr)
           | (Some (Inr s), tr) \<Rightarrow> sendAndClose ch s tr))"

text \<open>\<open>AddPublication\<close>, likewise.\<close>

definition Aeron_AddPublication ::
  "('s, 'p) Registrations \<Rightarrow> string \<Rightarrow> int32 \<Rightarrow> 'p chan \<times> int64" where
  "Aeron_AddPublication c channel streamID =
     (let ch = make_chan 1;
          regID = AddPublication c channel streamID
      in (ch, regID))"

definition AddPublication_goroutine ::
  "('s, 'p) Registrations \<Rightarrow> nat \<Rightarrow> int64 \<Rightarrow> 'p chan \<Rightarrow> 'p goroutine \<times> 'p poll list" where
  "AddPublication_goroutine c fuel regID ch =
     (case FindPublication c regID 0 of
        Inl p \<Rightarrow> (Panicked p, [])
      | Inr publication \<Rightarrow>
          (case pollUntilFound (FindPublication c regID) regID fuel 1 publication
                  [Polled regID publication] of
             (None, tr) \<Rightarrow> (StillPolling, tr)
           | (Some (Inl p), tr) \<Rightarrow> (Panicked p, tr)
           | (Some (Inr s), tr) \<Rightarrow> sendAndClose ch s tr))"

section \<open>Notions of the specification\<close>

text \<open>
  "Return the first error": the first error among the results of a sequence of release
  steps, \<open>None\<close> when every step succeeded.
\<close>

fun firstError :: "error option list \<Rightarrow> error option" where
  "firstError [] = None"
| "firstError (None # rs) = firstError rs"
| "firstError (Some e # rs) = Some e"

text \<open>
  Modelled from the spec: the accessors of \<open>atomic.Buffer\<close> and of the overlay are not
  among the sources. Section 4.B: a buffer is a view \<open>(base, capacity)\<close>, so the byte at
  offset \<open>k\<close> of a buffer lies at \<open>base + k\<close>. An overlay wrapped over a buffer at an
  offset reads its byte \<open>k\<close> through that buffer, at \<open>offset + k\<close>.
\<close>

definition Buffer_address :: "Buffer \<Rightarrow> int \<Rightarrow> uintptr" where
  "Buffer_address b k = bufferPtr b + word_of_int k"

definition Meta_address :: "LogBuffers \<Rightarrow> int \<Rightarrow> panic + uintptr" where
  "Meta_address logBuffers k =
     (case metaBuffer (Meta logBuffers) of
        None \<Rightarrow> Inl PanicNilDereference
      | Some i \<Rightarrow>
          (case Buffer logBuffers (int i) of
             Inl p \<Rightarrow> Inl p
           | Inr b \<Rightarrow> Inr (Buffer_address b (metaOffset (Meta logBuffers) + k))))"

text \<open>
  A pending registration resolves at lookup \<open>k\<close> with the object \<open>v\<close>: the lookups
  before it answer nil and lookup \<open>k\<close> answers \<open>v\<close>.
\<close>

definition resolvesAt :: "(nat \<Rightarrow> panic + 'a option) \<Rightarrow> nat \<Rightarrow> 'a \<Rightarrow> bool" where
  "resolvesAt answer k v \<longleftrightarrow> (\<forall>j < k. answer j = Inr None) \<and> answer k = Inr (Some v)"

text \<open>
  What a goroutine does on \<open>k\<close> nil answers: the first lookup is followed at once by
  the second, every later one by \<open>Idle(0)\<close>.
\<close>

fun nilPolls :: "int64 \<Rightarrow> nat \<Rightarrow> 'a poll list" where
  "nilPolls regID 0 = []"
| "nilPolls regID (Suc k) = Polled regID None # concat (replicate k [Polled regID None, Idled 0])"

section \<open>Concrete descriptors, files and systems\<close>

text \<open>
  The values of the scenarios of section 8: a metadata section of 4096 bytes and
  \<open>maxSingleMappingSize = 1 << 30\<close>, with term lengths from 64 KiB to 1 GiB.
\<close>

definition descriptor_example :: descriptor where
  "descriptor_example =
     \<lparr>logMetaDataLength = 4096, maxSingleMappingSize = 1073741824,
      termMinLength = 65536, termMaxLength = 1073741824\<rparr>"

text \<open>
  A system where the file has the given length and every mapping succeeds, each at a base
  address of its own; the second argument is what \<open>GetMemoryPtr\<close> does on a nil
  pointer.
\<close>

definition os_example :: "int64 \<Rightarrow> panic + uintptr \<Rightarrow> memmap" where
  "os_example logLength nilPtr =
     \<lparr>GetFileSize = (\<lambda>fileName. Inr logLength),
      MapExisting = (\<lambda>h fileName off len.
        Inr \<lparr>memoryPtr = 4294967296 * (1 + word_of_nat (length h)),
             mappedLength = (if len = 0 then logLength else len)\<rparr>),
      munmap = (\<lambda>h f. None),
      nilGetMemoryPtr = nilPtr,
      nilClose = Inl PanicNilDereference\<rparr>"

text \<open>A system where no mapping succeeds.\<close>

definition os_no_memory :: "int64 \<Rightarrow> memmap" where
  "os_no_memory logLength =
     \<lparr>GetFileSize = (\<lambda>fileName. Inr logLength),
      MapExisting = (\<lambda>h fileName off len. Inl ''ENOMEM''),
      munmap = (\<lambda>h f. None),
      nilGetMemoryPtr = Inl PanicNilDereference,
      nilClose = Inl PanicNilDereference\<rparr>"

text \<open>What \<open>Wrap\<close> returns for files of 200704 and of 200705 bytes on that system.\<close>

definition logBuffers_200704 :: LogBuffers where
  "logBuffers_200704 =
     \<lparr>mmapFiles = [Some \<lparr>memoryPtr = 4294967296, mappedLength = 200704\<rparr>],
      buffers = [\<lparr>bufferPtr = 4294967296, capacity = 65536\<rparr>,
                 \<lparr>bufferPtr = 4295032832, capacity = 65536\<rparr>,
                 \<lparr>bufferPtr = 4295098368, capacity = 65536\<rparr>,
                 \<lparr>bufferPtr = 4295163904, capacity = 4096\<rparr>],
      meta = \<lparr>metaBuffer = Some 3, metaOffset = 0\<rparr>\<rparr>"

definition logBuffers_200705 :: LogBuffers where
  "logBuffers_200705 =
     \<lparr>mmapFiles = [Some \<lparr>memoryPtr = 4294967296, mappedLength = 200705\<rparr>],
      buffers = [\<lparr>bufferPtr = 4294967296, capacity = 65536\<rparr>,
                 \<lparr>bufferPtr = 4295032832, capacity = 65536\<rparr>,
                 \<lparr>bufferPtr = 4295098368, capacity = 65536\<rparr>,
                 \<lparr>bufferPtr = 4295163905, capacity = 4096\<rparr>],
      meta = \<lparr>metaBuffer = Some 3, metaOffset = 0\<rparr>\<rparr>"

text \<open>
  What \<open>Wrap\<close> returns for a file of \<open>3 * (1 << 30) + 4096\<close> bytes when
  \<open>GetMemoryPtr\<close> answers the nil address on a nil pointer.
\<close>

definition logBuffers_3GiB_nil :: LogBuffers where
  "logBuffers_3GiB_nil =
     \<lparr>mmapFiles = [None, None, None, None,
                   Some \<lparr>memoryPtr = 4294967296, mappedLength = 4096\<rparr>,
                   Some \<lparr>memoryPtr = 8589934592, mappedLength = 1073741824\<rparr>,
                   Some \<lparr>memoryPtr = 12884901888, mappedLength = 1073741824\<rparr>,
                   Some \<lparr>memoryPtr = 17179869184, mappedLength = 1073741824\<rparr>],
      buffers = [\<lparr>bufferPtr = 0, capacity = 1073741824\<rparr>,
                 \<lparr>bufferPtr = 0, capacity = 1073741824\<rparr>,
                 \<lparr>bufferPtr = 0, capacity = 1073741824\<rparr>,
                 \<lparr>bufferPtr = 0, capacity = 4096\<rparr>],
      meta = \<lparr>metaBuffer = Some 3, metaOffset = 0\<rparr>\<rparr>"

text \<open>Two mapped regions, and a system that fails to unmap the first of them.\<close>

definition regionA :: File where
  "regionA = \<lparr>memoryPtr = 4294967296, mappedLength = 65536\<rparr>"

definition regionB :: File where
  "regionB = \<lparr>memoryPtr = 8589934592, mappedLength = 65536\<rparr>"

definition os_unmap_fails_once :: memmap where
  "os_unmap_fails_once =
     \<lparr>GetFileSize = (\<lambda>fileName. Inr 200704),
      MapExisting = (\<lambda>h fileName off len. Inl ''ENOMEM''),
      munmap = (\<lambda>h f. if f = regionA then Some ''EINVAL'' else None),
      nilGetMemoryPtr = Inl PanicNilDereference,
      nilClose = Inl PanicNilDereference\<rparr>"

definition logBuffers_two_regions :: LogBuffers where
  "logBuffers_two_regions = new_LogBuffers\<lparr>mmapFiles := [Some regionA, Some regionB]\<rparr>"

text \<open>
  A client whose conductor fails to close and one whose conductor closes; the CnC file
  of the second is the region that cannot be unmapped.
\<close>

definition aeron_example :: Aeron where
  "aeron_example =
     \<lparr>conductor = \<lparr>conductorClose = (\<lambda>h. Some ''failed to stop conductor'')\<rparr>,
      cncFile = Some regionB\<rparr>"

definition aeron_conductor_ok :: Aeron where
  "aeron_conductor_ok =
     \<lparr>conductor = \<lparr>conductorClose = (\<lambda>h. None)\<rparr>,
      cncFile = Some regionA\<rparr>"

text \<open>
  A conductor where the subscription resolves at its fourth lookup and the publication
  at its second, and one where nothing ever resolves.
\<close>

definition registrations_example :: "(string, string) Registrations" where
  "registrations_example =
     \<lparr>AddSubscription = (\<lambda>channel streamID. 7),
      FindSubscription = (\<lambda>regID n. if n < 3 then Inr None else Inr (Some ''subscription 7'')),
      AddPublication = (\<lambda>channel streamID. 8),
      FindPublication = (\<lambda>regID n. if n < 1 then Inr None else Inr (Some ''publication 8''))\<rparr>"

definition registrations_pending :: "(string, string) Registrations" where
  "registrations_pending =
     \<lparr>AddSubscription = (\<lambda>channel streamID. 7),
      FindSubscription = (\<lambda>regID n. Inr None),
      AddPublication = (\<lambda>channel streamID. 8),
      FindPublication = (\<lambda>regID n. Inr None)\<rparr>"

section \<open>The loops, unfolded\<close>

declare carveTerms.simps [simp del] mapTerms.simps [simp del]

lemma buffers_new_LogBuffers:
  "buffers new_LogBuffers = [Buffer_zero, Buffer_zero, Buffer_zero, Buffer_zero]"
  by (simp add: new_LogBuffers_def PartitionCount_def numeral_eq_Suc)

lemma carveTerms_step:
  "i < PartitionCount \<Longrightarrow>
     carveTerms p t i b = carveTerms p t (Suc i) (wrapBuffer i (p + word_of_nat i * t) (ucast t) b)"
  by (subst carveTerms.simps) simp

lemma carveTerms_stop: "\<not> i < PartitionCount \<Longrightarrow> carveTerms p t i b = b"
  by (subst carveTerms.simps) simp

lemma carveTerms_from_0:
  "carveTerms p t 0 b =
     wrapBuffer 2 (p + 2 * t) (ucast t) (wrapBuffer 1 (p + t) (ucast t) (wrapBuffer 0 p (ucast t) b))"
  by (simp add: carveTerms_step carveTerms_stop PartitionCount_def numeral_2_eq_2)

lemma mapTerms_returns:
  assumes "mapTerms os fileName t i b h = (Inr b', h')"
  shows "length (buffers b') = length (buffers b) \<and> meta b' = meta b
       \<and> (\<forall>j < length (buffers b). j < i \<or> PartitionCount \<le> j \<longrightarrow> buffers b' ! j = buffers b ! j)
       \<and> (\<forall>j < length (buffers b). i \<le> j \<and> j < PartitionCount \<longrightarrow> capacity (buffers b' ! j) = ucast t)"
  using assms
proof (induction os fileName t i b h rule: mapTerms.induct)
  case (1 os fileName t i b h)
  show ?case
  proof (cases "i < PartitionCount")
    case False
    with "1.prems" show ?thesis
      by (subst (asm) mapTerms.simps) auto
  next
    case True
    let ?r = "MapExisting os h fileName (word_of_nat i * t) t"
    let ?h1 = "h @ [Mapped fileName (word_of_nat i * t) t ?r]"
    from "1.prems" True obtain mmap f basePtr where
      m: "?r = Inr mmap"
      and f: "index_File (mmapFiles (b\<lparr>mmapFiles := mmapFiles b @ [Some mmap]\<rparr>)) (i + 1) = Inr f"
      and p: "GetMemoryPtr os f = Inr basePtr"
      and rec: "mapTerms os fileName t (i + 1)
                  (wrapBuffer i basePtr (ucast t) (b\<lparr>mmapFiles := mmapFiles b @ [Some mmap]\<rparr>)) ?h1
                = (Inr b', h')"
      by (subst (asm) mapTerms.simps) (auto simp: Let_def split: sum.splits)
    define b1 where "b1 = wrapBuffer i basePtr (ucast t) (b\<lparr>mmapFiles := mmapFiles b @ [Some mmap]\<rparr>)"
    have b1: "length (buffers b1) = length (buffers b)" "meta b1 = meta b"
      "\<And>j. j < length (buffers b) \<Longrightarrow> j \<noteq> i \<Longrightarrow> buffers b1 ! j = buffers b ! j"
      "i < length (buffers b) \<Longrightarrow> capacity (buffers b1 ! i) = ucast t"
      by (simp_all add: b1_def wrapBuffer_def Buffer_Wrap_def)
    have ih: "length (buffers b') = length (buffers b1) \<and> meta b' = meta b1
       \<and> (\<forall>j < length (buffers b1). j < i + 1 \<or> PartitionCount \<le> j \<longrightarrow> buffers b' ! j = buffers b1 ! j)
       \<and> (\<forall>j < length (buffers b1). i + 1 \<le> j \<and> j < PartitionCount \<longrightarrow> capacity (buffers b' ! j) = ucast t)"
      unfolding b1_def by (rule "1.IH" [OF True refl refl m refl f p rec])
    show ?thesis
    proof (intro conjI allI impI)
      show "length (buffers b') = length (buffers b)" using ih b1 by simp
      show "meta b' = meta b" using ih b1 by simp
    next
      fix j assume j: "j < length (buffers b)" "j < i \<or> PartitionCount \<le> j"
      with True have "j \<noteq> i" by auto
      with ih b1 j show "buffers b' ! j = buffers b ! j" by auto
    next
      fix j assume j: "j < length (buffers b)" "i \<le> j \<and> j < PartitionCount"
      show "capacity (buffers b' ! j) = ucast t"
      proof (cases "j = i")
        case True
        with ih b1 j show ?thesis by auto
      next
        case False
        with ih b1 j show ?thesis by auto
      qed
    qed
  qed
qed


lemma mapTerms_history:
  assumes "mapTerms os fileName t i b h = (r, h')"
  shows "\<exists>evs. h' = h @ evs
           \<and> (\<forall>n off len e. Mapped n off len (Inl e) \<in> set evs \<longrightarrow>
                  r = Inl (PanicString ''Failed to map the log buffer''))"
  using assms
proof (induction os fileName t i b h rule: mapTerms.induct)
  case (1 os fileName t i b h)
  show ?case
  proof (cases "i < PartitionCount")
    case False
    with "1.prems" show ?thesis
      by (subst (asm) mapTerms.simps) auto
  next
    case True
    let ?r = "MapExisting os h fileName (word_of_nat i * t) t"
    let ?h1 = "h @ [Mapped fileName (word_of_nat i * t) t ?r]"
    show ?thesis
    proof (cases ?r)
      case (Inl err)
      with "1.prems" True show ?thesis
        by (subst (asm) mapTerms.simps) (auto simp: Let_def)
    next
      case (Inr mmap)
      let ?b1 = "b\<lparr>mmapFiles := mmapFiles b @ [Some mmap]\<rparr>"
      show ?thesis
      proof (cases "index_File (mmapFiles ?b1) (i + 1)")
        case (Inl p)
        with "1.prems" True Inr show ?thesis
          by (subst (asm) mapTerms.simps) (auto simp: Let_def)
      next
        case f: (Inr f)
        show ?thesis
        proof (cases "GetMemoryPtr os f")
          case (Inl p)
          with "1.prems" True Inr f show ?thesis
            by (subst (asm) mapTerms.simps) (auto simp: Let_def)
        next
          case p: (Inr basePtr)
          from "1.prems" True Inr f p
          have rec: "mapTerms os fileName t (i + 1) (wrapBuffer i basePtr (ucast t) ?b1) ?h1 = (r, h')"
            by (subst (asm) mapTerms.simps) (auto simp: Let_def)
          from "1.IH" [OF True refl refl Inr refl f p rec]
          obtain evs where evs: "h' = ?h1 @ evs"
            "\<forall>n off len e. Mapped n off len (Inl e) \<in> set evs \<longrightarrow>
                  r = Inl (PanicString ''Failed to map the log buffer'')"
            by blast
          have "h' = h @ (Mapped fileName (word_of_nat i * t) t ?r # evs)"
            using evs by simp
          moreover have "\<forall>n off len e. Mapped n off len (Inl e) \<in> set (Mapped fileName (word_of_nat i * t) t ?r # evs) \<longrightarrow>
                  r = Inl (PanicString ''Failed to map the log buffer'')"
            using evs Inr by auto
          ultimately show ?thesis by blast
        qed
      qed
    qed
  qed
qed

lemma wrapSingle_mapped:
  assumes "MapExisting os h fileName 0 0 = Inr mmap"
  shows "wrapSingle d os h fileName logLength t new_LogBuffers =
     (Inr \<lparr>mmapFiles = [Some mmap],
           buffers = [Buffer_Wrap (memoryPtr mmap) (ucast t),
                      Buffer_Wrap (memoryPtr mmap + t) (ucast t),
                      Buffer_Wrap (memoryPtr mmap + 2 * t) (ucast t),
                      Buffer_Wrap (memoryPtr mmap + (logLength - scast (logMetaDataLength d)))
                        (logMetaDataLength d)],
           meta = LogBufferMetaData_zero\<rparr>,
      h @ [Mapped fileName 0 0 (Inr mmap)])"
proof -
  have c: "carveTerms p t 0 (new_LogBuffers\<lparr>mmapFiles := [Some mmap]\<rparr>) =
      \<lparr>mmapFiles = [Some mmap],
       buffers = [Buffer_Wrap p (ucast t), Buffer_Wrap (p + t) (ucast t),
                  Buffer_Wrap (p + 2 * t) (ucast t), Buffer_zero],
       meta = LogBufferMetaData_zero\<rparr>" for p
    by (simp add: carveTerms_from_0 wrapBuffer_def buffers_new_LogBuffers numeral_eq_Suc)
       (simp add: new_LogBuffers_def)
  show ?thesis
    using assms
    by (simp add: wrapSingle_def GetMemoryPtr_def c wrapBuffer_def LogMetaDataSectionIndex_def
        PartitionCount_def numeral_eq_Suc)
qed

lemma wrapSingle_failed:
  assumes "MapExisting os h fileName 0 0 = Inl err"
  shows "wrapSingle d os h fileName logLength t b =
           (Inl (PanicError err), h @ [Mapped fileName 0 0 (Inl err)])"
  using assms by (simp add: wrapSingle_def)

lemma wrapMulti_returns:
  assumes "wrapMulti d os h fileName logLength t new_LogBuffers = (Inr b', h')"
  shows "length (buffers b') = 4 \<and> meta b' = LogBufferMetaData_zero
       \<and> (\<forall>j < PartitionCount. capacity (buffers b' ! j) = ucast t)
       \<and> capacity (buffers b' ! PartitionCount) = logMetaDataLength d"
proof -
  let ?off = "t * word_of_nat PartitionCount"
  let ?r = "MapExisting os h fileName ?off (logLength - ?off)"
  let ?h1 = "h @ [Mapped fileName ?off (logLength - ?off) ?r]"
  from assms obtain mmap b2 f p where
    m: "?r = Inr mmap"
    and t: "mapTerms os fileName t 0
             (new_LogBuffers\<lparr>mmapFiles := replicate (PartitionCount + 1) None @ [Some mmap]\<rparr>) ?h1
            = (Inr b2, h')"
    and b': "b' = wrapBuffer LogMetaDataSectionIndex p (logMetaDataLength d) b2"
    by (auto simp: wrapMulti_def Let_def split: sum.splits prod.splits)
  from mapTerms_returns [OF t]
  have b2: "length (buffers b2) = 4" "meta b2 = LogBufferMetaData_zero"
    "\<forall>j < 4. 0 \<le> j \<and> j < PartitionCount \<longrightarrow> capacity (buffers b2 ! j) = ucast t"
    by (simp_all add: buffers_new_LogBuffers) (simp add: new_LogBuffers_def)
  show ?thesis
    using b2 by (auto simp: b' wrapBuffer_def LogMetaDataSectionIndex_def PartitionCount_def Buffer_Wrap_def)
qed

lemma wrapMulti_history:
  assumes "wrapMulti d os h fileName logLength t b = (r, h')"
  shows "\<exists>evs. h' = h @ evs
           \<and> (\<forall>n off len e. Mapped n off len (Inl e) \<in> set evs \<longrightarrow>
                  r = Inl (PanicString ''Failed to map the log buffer''))"
proof -
  let ?off = "t * word_of_nat PartitionCount"
  let ?r = "MapExisting os h fileName ?off (logLength - ?off)"
  let ?ev = "Mapped fileName ?off (logLength - ?off) ?r"
  show ?thesis
  proof (cases ?r)
    case (Inl err)
    with assms have "r = Inl (PanicString ''Failed to map the log buffer'')" "h' = h @ [?ev]"
      by (auto simp: wrapMulti_def Let_def)
    then show ?thesis by blast
  next
    case (Inr mmap)
    obtain r2 h2 where t: "mapTerms os fileName t 0
        (b\<lparr>mmapFiles := replicate (PartitionCount + 1) None @ [Some mmap]\<rparr>) (h @ [?ev]) = (r2, h2)"
      by (cases "mapTerms os fileName t 0
        (b\<lparr>mmapFiles := replicate (PartitionCount + 1) None @ [Some mmap]\<rparr>) (h @ [?ev])")
    from mapTerms_history [OF t] obtain evs where evs: "h2 = (h @ [?ev]) @ evs"
      "\<forall>n off len e. Mapped n off len (Inl e) \<in> set evs \<longrightarrow>
                  r2 = Inl (PanicString ''Failed to map the log buffer'')"
      by blast
    from assms Inr t have hh: "h' = h2" and rr: "(\<exists>p. r2 = Inl p) \<longrightarrow> r = r2"
      by (auto simp: wrapMulti_def Let_def split: sum.splits prod.splits)
    have "h' = h @ (?ev # evs)" using hh evs by simp
    moreover have "\<forall>n off len e. Mapped n off len (Inl e) \<in> set (?ev # evs) \<longrightarrow>
                  r = Inl (PanicString ''Failed to map the log buffer'')"
      using evs rr Inr by auto
    ultimately show ?thesis by blast
  qed
qed

lemma mapTerms_nil_slots:
  assumes "mapTerms os fileName t i b h = (Inr b', h')"
    and "PartitionCount < length (mmapFiles b)"
    and "\<forall>j \<le> PartitionCount. mmapFiles b ! j = None"
  shows "PartitionCount < length (mmapFiles b') \<and> (\<forall>j \<le> PartitionCount. mmapFiles b' ! j = None)
       \<and> (\<forall>j < length (buffers b). i \<le> j \<and> j < PartitionCount \<longrightarrow>
             nilGetMemoryPtr os = Inr (bufferPtr (buffers b' ! j)))"
  using assms
proof (induction os fileName t i b h rule: mapTerms.induct)
  case (1 os fileName t i b h)
  show ?case
  proof (cases "i < PartitionCount")
    case False
    with "1.prems" show ?thesis
      by (subst (asm) mapTerms.simps) auto
  next
    case True
    let ?r = "MapExisting os h fileName (word_of_nat i * t) t"
    let ?h1 = "h @ [Mapped fileName (word_of_nat i * t) t ?r]"
    from "1.prems"(1) True obtain mmap f basePtr where
      m: "?r = Inr mmap"
      and f: "index_File (mmapFiles (b\<lparr>mmapFiles := mmapFiles b @ [Some mmap]\<rparr>)) (i + 1) = Inr f"
      and p: "GetMemoryPtr os f = Inr basePtr"
      and rec: "mapTerms os fileName t (i + 1)
                  (wrapBuffer i basePtr (ucast t) (b\<lparr>mmapFiles := mmapFiles b @ [Some mmap]\<rparr>)) ?h1
                = (Inr b', h')"
      by (subst (asm) mapTerms.simps) (auto simp: Let_def split: sum.splits)
    define b1 where "b1 = wrapBuffer i basePtr (ucast t) (b\<lparr>mmapFiles := mmapFiles b @ [Some mmap]\<rparr>)"
    from f True "1.prems"(2,3) have "f = None"
      by (auto simp: index_File_def nth_append split: if_splits)
    with p have nil: "nilGetMemoryPtr os = Inr basePtr"
      by (simp add: GetMemoryPtr_def)
    have b1: "length (buffers b1) = length (buffers b)"
      "PartitionCount < length (mmapFiles b1)"
      "\<forall>j \<le> PartitionCount. mmapFiles b1 ! j = None"
      "i < length (buffers b) \<Longrightarrow> bufferPtr (buffers b1 ! i) = basePtr"
      using "1.prems"(2,3) by (simp_all add: b1_def wrapBuffer_def Buffer_Wrap_def nth_append)
    have ih: "PartitionCount < length (mmapFiles b') \<and> (\<forall>j \<le> PartitionCount. mmapFiles b' ! j = None)
       \<and> (\<forall>j < length (buffers b1). i + 1 \<le> j \<and> j < PartitionCount \<longrightarrow>
             nilGetMemoryPtr os = Inr (bufferPtr (buffers b' ! j)))"
      using "1.IH" [OF True refl refl m refl f p rec] b1(2,3) unfolding b1_def by blast
    from mapTerms_returns [OF rec]
    have keep: "i < length (buffers b) \<Longrightarrow> buffers b' ! i = buffers b1 ! i"
      unfolding b1_def [symmetric] using b1(1) by simp
    show ?thesis
    proof (intro conjI allI impI)
      show "PartitionCount < length (mmapFiles b')" using ih by simp
    next
      fix j assume "j \<le> PartitionCount"
      with ih show "mmapFiles b' ! j = None" by simp
    next
      fix j assume j: "j < length (buffers b)" "i \<le> j \<and> j < PartitionCount"
      show "nilGetMemoryPtr os = Inr (bufferPtr (buffers b' ! j))"
      proof (cases "j = i")
        case True
        with keep b1(4) j nil show ?thesis by simp
      next
        case False
        with ih b1(1) j show ?thesis by auto
      qed
    qed
  qed
qed

lemma wrapMulti_nil_slots:
  assumes "wrapMulti d os h fileName logLength t new_LogBuffers = (Inr b', h')"
  shows "\<forall>j \<le> PartitionCount. nilGetMemoryPtr os = Inr (bufferPtr (buffers b' ! j))"
proof -
  let ?off = "t * word_of_nat PartitionCount"
  let ?r = "MapExisting os h fileName ?off (logLength - ?off)"
  let ?h1 = "h @ [Mapped fileName ?off (logLength - ?off) ?r]"
  let ?b0 = "\<lambda>mmap. new_LogBuffers\<lparr>mmapFiles := replicate (PartitionCount + 1) None @ [Some mmap]\<rparr>"
  from assms obtain mmap b2 f p where
    m: "?r = Inr mmap"
    and t: "mapTerms os fileName t 0 (?b0 mmap) ?h1 = (Inr b2, h')"
    and f: "index_File (mmapFiles b2) 0 = Inr f"
    and p: "GetMemoryPtr os f = Inr p"
    and b': "b' = wrapBuffer LogMetaDataSectionIndex p (logMetaDataLength d) b2"
    by (auto simp: wrapMulti_def Let_def split: sum.splits prod.splits)
  have pre: "PartitionCount < length (mmapFiles (?b0 mmap))"
    "\<forall>j \<le> PartitionCount. mmapFiles (?b0 mmap) ! j = None"
    by (auto simp: nth_append PartitionCount_def numeral_eq_Suc less_Suc_eq_0_disj nth_Cons')
  from mapTerms_nil_slots [OF t pre]
  have b2: "PartitionCount < length (mmapFiles b2)" "mmapFiles b2 ! 0 = None"
    "\<forall>j < 4. j < PartitionCount \<longrightarrow> nilGetMemoryPtr os = Inr (bufferPtr (buffers b2 ! j))"
    by (simp_all add: buffers_new_LogBuffers)
  from mapTerms_returns [OF t] have n: "length (buffers b2) = 4"
    by (simp add: buffers_new_LogBuffers)
  from f b2(1,2) have "f = None"
    by (auto simp: index_File_def split: if_splits)
  with p have nil: "nilGetMemoryPtr os = Inr p"
    by (simp add: GetMemoryPtr_def)
  show ?thesis
  proof (intro allI impI)
    fix j assume "j \<le> PartitionCount"
    then consider "j < PartitionCount" | "j = PartitionCount" by linarith
    then show "nilGetMemoryPtr os = Inr (bufferPtr (buffers b' ! j))"
    proof cases
      case 1
      with b2(3) n show ?thesis
        by (simp add: b' wrapBuffer_def LogMetaDataSectionIndex_def PartitionCount_def)
    next
      case 2
      with nil n show ?thesis
        by (simp add: b' wrapBuffer_def LogMetaDataSectionIndex_def PartitionCount_def Buffer_Wrap_def)
    qed
  qed
qed

section \<open>Arithmetic of the machine types\<close>

lemma sint_scast_int32 : "sint (scast (m :: int32) :: int64) = sint m"
  by (rule sint_up_scast) (simp add: is_up)

lemma sint_ucast_int32:
  assumes "- (2 ^ 31) \<le> sint (t :: int64)" and "sint t < 2 ^ 31"
  shows "sint (ucast t :: int32) = sint t"
proof -
  have "(ucast t :: int32) = scast t"
    by (simp add: down_cast_same is_down)
  also have "\<dots> = word_of_int (sint t)"
    by (rule scast_eq)
  finally have "sint (ucast t :: int32) = signed_take_bit 31 (sint t)"
    by (simp only: sint_sbintrunc') simp
  with assms show ?thesis
    by (simp add: signed_take_bit_int_eq_self)
qed

lemma sdiv_3_eq: "(k::int) sdiv 3 = (if 0 \<le> k then k div 3 else - ((- k) div 3))"
  by (simp add: signed_divide_int_def sgn_if)

lemma sint_int64_div_3: "sint (int64_div w 3) = sint w sdiv 3"
proof -
  have r: "- 9223372036854775808 \<le> sint w" "sint w < 9223372036854775808"
    using sint_ge [of w] sint_lt [of w] by simp_all
  then have "- 9223372036854775808 \<le> sint w sdiv 3" "sint w sdiv 3 < 9223372036854775808"
    unfolding sdiv_3_eq by (auto split: if_splits)
  then show ?thesis
    by (simp add: int64_div_def sint_sbintrunc' signed_take_bit_int_eq_self)
qed

lemma checkTermLength_Inr:
  "checkTermLength d t = Inr u \<longleftrightarrow>
     sint (termMinLength d) \<le> sint t \<and> sint t \<le> sint (termMaxLength d) \<and> isPowerOfTwo t"
  by (simp add: checkTermLength_def)

lemma isPowerOfTwo_positive: "isPowerOfTwo t \<Longrightarrow> 1 \<le> sint t"
  by (auto simp: isPowerOfTwo_def)

text \<open>What a returned value looks like, in either branch.\<close>

lemma Wrap_returns:
  assumes "Wrap d os h fileName = (Inr lb, h')"
  shows "\<exists>logLength. GetFileSize os fileName = Inr logLength
       \<and> checkTermLength d (computeTermLength d logLength) = Inr ()
       \<and> length (buffers lb) = 4
       \<and> (\<forall>j < PartitionCount. capacity (buffers lb ! j) = ucast (computeTermLength d logLength))
       \<and> capacity (buffers lb ! PartitionCount) = logMetaDataLength d
       \<and> meta lb = LogBufferMetaData_Wrap PartitionCount 0"
proof -
  from assms obtain logLength where L: "GetFileSize os fileName = Inr logLength"
    by (auto simp: Wrap_def split: sum.splits)
  let ?t = "computeTermLength d logLength"
  from assms L have c: "checkTermLength d ?t = Inr ()"
    by (auto simp: Wrap_def Let_def split: sum.splits)
  show ?thesis
  proof (cases "logLength <s maxSingleMappingSize d")
    case True
    from assms L c True obtain b1 where
      w: "wrapSingle d os h fileName logLength ?t new_LogBuffers = (Inr b1, h')"
      and lb: "lb = b1\<lparr>meta := LogBufferMetaData_Wrap PartitionCount 0\<rparr>"
      by (auto simp: Wrap_def Let_def split: sum.splits prod.splits)
    from w obtain mmap where m: "MapExisting os h fileName 0 0 = Inr mmap"
      by (cases "MapExisting os h fileName 0 0") (auto simp: wrapSingle_failed)
    from w have "b1 = \<lparr>mmapFiles = [Some mmap],
           buffers = [Buffer_Wrap (memoryPtr mmap) (ucast ?t),
                      Buffer_Wrap (memoryPtr mmap + ?t) (ucast ?t),
                      Buffer_Wrap (memoryPtr mmap + 2 * ?t) (ucast ?t),
                      Buffer_Wrap (memoryPtr mmap + (logLength - scast (logMetaDataLength d)))
                        (logMetaDataLength d)],
           meta = LogBufferMetaData_zero\<rparr>"
      by (simp add: wrapSingle_mapped [OF m])
    with lb L c show ?thesis
      by (auto simp: PartitionCount_def Buffer_Wrap_def less_Suc_eq numeral_eq_Suc)
  next
    case False
    from assms L c False obtain b1 where
      w: "wrapMulti d os h fileName logLength ?t new_LogBuffers = (Inr b1, h')"
      and lb: "lb = b1\<lparr>meta := LogBufferMetaData_Wrap PartitionCount 0\<rparr>"
      by (auto simp: Wrap_def Let_def split: sum.splits prod.splits)
    from wrapMulti_returns [OF w] lb L c show ?thesis
      by simp
  qed
qed

text \<open>
  Whatever the file and the system: when every section gets a mapping of its own, all
  four buffers of a returned value are wrapped at the address that \<open>GetMemoryPtr\<close>
  answers on a nil pointer, and no value is returned when it panics there.
\<close>

lemma Wrap_multi_mapping_bases:
  assumes "GetFileSize os fileName = Inr logLength"
    and "\<not> logLength <s maxSingleMappingSize d"
    and "Wrap d os h fileName = (Inr lb, h')"
  shows "\<forall>j \<le> PartitionCount. nilGetMemoryPtr os = Inr (bufferPtr (buffers lb ! j))"
proof -
  from assms obtain b1 where
    w: "wrapMulti d os h fileName logLength (computeTermLength d logLength) new_LogBuffers = (Inr b1, h')"
    and lb: "lb = b1\<lparr>meta := LogBufferMetaData_Wrap PartitionCount 0\<rparr>"
    by (auto simp: Wrap_def Let_def split: sum.splits prod.splits)
  from wrapMulti_nil_slots [OF w] lb show ?thesis by simp
qed

lemma Wrap_single_branch:
  assumes "GetFileSize os fileName = Inr logLength"
    and "checkTermLength d (computeTermLength d logLength) = Inr ()"
    and "logLength <s maxSingleMappingSize d"
  shows "Wrap d os h fileName =
     (case wrapSingle d os h fileName logLength (computeTermLength d logLength) new_LogBuffers of
        (Inl p, h1) \<Rightarrow> (Inl p, h1)
      | (Inr b1, h1) \<Rightarrow> (Inr (b1\<lparr>meta := LogBufferMetaData_Wrap PartitionCount 0\<rparr>), h1))"
  using assms by (simp add: Wrap_def)

lemma isPowerOfTwo_third:
  assumes "isPowerOfTwo t" and "3 * sint t < 2 ^ 63"
  shows "sint t \<le> 2 ^ 61"
proof -
  from assms(1) obtain k :: nat where k: "k < 63" "sint t = 2 ^ k"
    by (auto simp: isPowerOfTwo_def)
  have "k \<le> 61"
  proof (rule ccontr)
    assume "\<not> k \<le> 61"
    with k(1) have "k = 62" by simp
    with k(2) assms(2) show False by simp
  qed
  then have "(2::int) ^ k \<le> 2 ^ 61"
    by (intro power_increasing) simp_all
  with k(2) show ?thesis by simp
qed

lemma computeTermLength_accepted:
  assumes "checkTermLength d (computeTermLength d logLength) = Inr ()"
  shows "sint (computeTermLength d logLength)
           = (sint logLength - sint (logMetaDataLength d)) sdiv int PartitionCount"
    and "int PartitionCount * sint (computeTermLength d logLength) + sint (logMetaDataLength d)
           \<le> sint logLength"
    and "sint logLength
           < int PartitionCount * sint (computeTermLength d logLength) + sint (logMetaDataLength d)
             + int PartitionCount"
proof -
  let ?m = "scast (logMetaDataLength d) :: int64"
  let ?w = "logLength - ?m"
  let ?t = "computeTermLength d logLength"
  have t: "sint ?t = sint ?w sdiv 3"
    by (simp add: computeTermLength_def PartitionCount_def sint_int64_div_3)
  from assms have p: "isPowerOfTwo ?t" and pos: "1 \<le> sint ?t"
    by (auto simp: checkTermLength_Inr dest: isPowerOfTwo_positive)
  from pos t have d: "sint ?w sdiv 3 = sint ?w div 3" "3 \<le> sint ?w"
    unfolding sdiv_3_eq by (auto split: if_splits)
  with t have w: "3 * sint ?t \<le> sint ?w" "sint ?w \<le> 3 * sint ?t + 2"
    by simp_all
  have "sint ?w < 2 ^ 63"
    using sint_lt [of ?w] by simp
  with w have "3 * sint ?t < 2 ^ 63" by simp
  from isPowerOfTwo_third [OF p this] w have wb: "sint ?w \<le> 3 * 2 ^ 61 + 2"
    by simp
  have m: "sint ?m = sint (logMetaDataLength d)"
    by (rule sint_scast_int32)
  have mb: "- (2 ^ 31) \<le> sint (logMetaDataLength d)" "sint (logMetaDataLength d) < 2 ^ 31"
    using sint_ge [of "logMetaDataLength d"] sint_lt [of "logMetaDataLength d"] by simp_all
  have "sint (?w + ?m) = signed_take_bit (LENGTH(64) - 1) (sint ?w + sint ?m)"
    by (rule sint_word_add)
  moreover have "?w + ?m = logLength" by simp
  ultimately have "sint logLength = signed_take_bit 63 (sint ?w + sint ?m)"
    by simp
  also have "\<dots> = sint ?w + sint ?m"
    using d(2) wb mb m by (intro signed_take_bit_int_eq_self) simp_all
  finally have L: "sint logLength = sint ?w + sint (logMetaDataLength d)"
    using m by simp
  show "sint ?t = (sint logLength - sint (logMetaDataLength d)) sdiv int PartitionCount"
    using t L by (simp add: PartitionCount_def)
  show "int PartitionCount * sint ?t + sint (logMetaDataLength d) \<le> sint logLength"
    using w L by (simp add: PartitionCount_def)
  show "sint logLength < int PartitionCount * sint ?t + sint (logMetaDataLength d) + int PartitionCount"
    using w L by (simp add: PartitionCount_def)
qed

section \<open>The concrete runs\<close>

lemma Wrap_200704:
  "Wrap descriptor_example (os_example 200704 (Inl PanicNilDereference)) [] ''log'' =
     (Inr logBuffers_200704,
      [Mapped ''log'' 0 0 (Inr \<lparr>memoryPtr = 4294967296, mappedLength = 200704\<rparr>)])"
  by code_simp

lemma Wrap_200705:
  "Wrap descriptor_example (os_example 200705 (Inl PanicNilDereference)) [] ''log'' =
     (Inr logBuffers_200705,
      [Mapped ''log'' 0 0 (Inr \<lparr>memoryPtr = 4294967296, mappedLength = 200705\<rparr>)])"
  by code_simp

lemma computeTermLength_200704: "computeTermLength descriptor_example 200704 = 65536"
  by code_simp

lemma computeTermLength_200705: "computeTermLength descriptor_example 200705 = 65536"
  by code_simp

section \<open>The polling loop\<close>

lemma pollUntilFound_pending:
  assumes "\<forall>n. answer n = Inr None"
  shows "pollUntilFound answer regID fuel n None tr =
           (None, tr @ concat (replicate fuel [Polled regID None, Idled 0]))"
  using assms
proof (induction fuel arbitrary: n tr)
  case 0
  then show ?case by simp
next
  case (Suc fuel)
  then show ?case by simp
qed

lemma pollUntilFound_found:
  assumes "\<forall>j. n \<le> j \<and> j < n + m \<longrightarrow> answer j = Inr None"
    and "answer (n + m) = Inr (Some v)"
    and "m < fuel"
  shows "pollUntilFound answer regID fuel n None tr =
           (Some (Inr v), tr @ concat (replicate m [Polled regID None, Idled 0]) @ [Polled regID (Some v)])"
  using assms
proof (induction m arbitrary: n fuel tr)
  case 0
  then obtain f where "fuel = Suc f" by (cases fuel) auto
  with 0 show ?case by simp
next
  case (Suc m)
  then obtain f where f: "fuel = Suc f" "m < f" by (cases fuel) auto
  from Suc.prems(1) have n: "answer n = Inr None" by simp
  have "pollUntilFound answer regID f (n + 1) None (tr @ [Polled regID None, Idled 0]) =
          (Some (Inr v), (tr @ [Polled regID None, Idled 0])
             @ concat (replicate m [Polled regID None, Idled 0]) @ [Polled regID (Some v)])"
    using Suc.prems f by (intro Suc.IH) auto
  with n f show ?case by simp
qed

lemma goroutine_found:
  assumes "resolvesAt answer k v" and "k \<le> fuel"
  shows "(case answer 0 of
            Inl p \<Rightarrow> (Panicked p, [])
          | Inr x \<Rightarrow>
              (case pollUntilFound answer regID fuel 1 x [Polled regID x] of
                 (None, tr) \<Rightarrow> (StillPolling, tr)
               | (Some (Inl p), tr) \<Rightarrow> (Panicked p, tr)
               | (Some (Inr s), tr) \<Rightarrow> sendAndClose (make_chan 1) s tr))
         = (Exited \<lparr>chanCapacity = 1, chanQueue = [v], chanClosed = True\<rparr>,
            nilPolls regID k @ [Polled regID (Some v), Sent v, ChannelClosed])"
proof (cases k)
  case 0
  with assms show ?thesis
    by (simp add: resolvesAt_def sendAndClose_def chan_send_def chan_close_def make_chan_def)
next
  case (Suc m)
  with assms have 0: "answer 0 = Inr None" and r: "\<forall>j. 1 \<le> j \<and> j < 1 + m \<longrightarrow> answer j = Inr None"
    and v: "answer (1 + m) = Inr (Some v)" and m: "m < fuel"
    by (auto simp: resolvesAt_def)
  from pollUntilFound_found [OF r v m, of regID "[Polled regID None]"] 0 Suc show ?thesis
    by (simp add: sendAndClose_def chan_send_def chan_close_def make_chan_def)
qed

lemma goroutine_pending:
  assumes "\<forall>n. answer n = Inr None"
  shows "(case answer 0 of
            Inl p \<Rightarrow> (Panicked p, [])
          | Inr x \<Rightarrow>
              (case pollUntilFound answer regID fuel 1 x [Polled regID x] of
                 (None, tr) \<Rightarrow> (StillPolling, tr)
               | (Some (Inl p), tr) \<Rightarrow> (Panicked p, tr)
               | (Some (Inr s), tr) \<Rightarrow> sendAndClose ch s tr))
         = (StillPolling, Polled regID None # concat (replicate fuel [Polled regID None, Idled 0]))"
  using assms by (simp add: pollUntilFound_pending)

section \<open>Properties of LogBuffers.Wrap\<close>

text \<open>
  C3. When the length of the log file is below \<open>maxSingleMappingSize\<close>, the term
  length passes \<open>checkTermLength\<close> and the mapping succeeds, \<open>Wrap\<close> asks for exactly one
  mapping, of the whole file (\<open>MapExisting(fileName, 0, 0)\<close>), and returns a
  \<open>LogBuffers\<close> that holds that mapping alone; \<open>Buffer(i)\<close> for each term
  \<open>i < PartitionCount\<close> starts \<open>i * termLength\<close> bytes after the base of the mapping
  and has capacity \<open>termLength\<close>; \<open>Buffer(PartitionCount)\<close>, the metadata view, starts
  \<open>logLength - logMetaDataLength\<close> bytes after the base and has capacity
  \<open>logMetaDataLength\<close>. The capacity is an \<open>int32\<close>: it is the term length itself as
  long as the largest term length allowed fits 31 bits.
\<close>

theorem Wrap_single_mapping:
  assumes "GetFileSize os fileName = Inr logLength"
    and "checkTermLength d (computeTermLength d logLength) = Inr ()"
    and "logLength <s maxSingleMappingSize d"
    and "MapExisting os h fileName 0 0 = Inr mmap"
    and "sint (termMaxLength d) < 2 ^ 31"
  shows "\<exists>lb. Wrap d os h fileName = (Inr lb, h @ [Mapped fileName 0 0 (Inr mmap)])
     \<and> mmapFiles lb = [Some mmap]
     \<and> (\<forall>i < PartitionCount.
           Buffer lb (int i) =
             Inr \<lparr>bufferPtr = memoryPtr mmap + word_of_nat i * computeTermLength d logLength,
                  capacity = ucast (computeTermLength d logLength)\<rparr>)
     \<and> sint (ucast (computeTermLength d logLength) :: int32) = sint (computeTermLength d logLength)
     \<and> Buffer lb (int PartitionCount) =
             Inr \<lparr>bufferPtr = memoryPtr mmap + (logLength - scast (logMetaDataLength d)),
                  capacity = logMetaDataLength d\<rparr>"
proof -
  let ?t = "computeTermLength d logLength"
  from assms(2) have t: "1 \<le> sint ?t" "sint ?t \<le> sint (termMaxLength d)"
    by (auto simp: checkTermLength_Inr dest: isPowerOfTwo_positive)
  with assms(5) have cap: "sint (ucast ?t :: int32) = sint ?t"
    by (intro sint_ucast_int32) auto
  have "Wrap d os h fileName =
     (Inr \<lparr>mmapFiles = [Some mmap],
           buffers = [Buffer_Wrap (memoryPtr mmap) (ucast ?t),
                      Buffer_Wrap (memoryPtr mmap + ?t) (ucast ?t),
                      Buffer_Wrap (memoryPtr mmap + 2 * ?t) (ucast ?t),
                      Buffer_Wrap (memoryPtr mmap + (logLength - scast (logMetaDataLength d)))
                        (logMetaDataLength d)],
           meta = LogBufferMetaData_Wrap PartitionCount 0\<rparr>,
      h @ [Mapped fileName 0 0 (Inr mmap)])"
    by (simp add: Wrap_single_branch [OF assms(1,2,3)] wrapSingle_mapped [OF assms(4)])
  with cap show ?thesis
    by (auto simp: Buffer_def Buffer_Wrap_def PartitionCount_def less_Suc_eq numeral_eq_Suc)
qed

theorem Wrap_single_mapping_witness:
  "GetFileSize (os_example 200704 (Inl PanicNilDereference)) ''log'' = Inr 200704
   \<and> checkTermLength descriptor_example (computeTermLength descriptor_example 200704) = Inr ()
   \<and> (200704 :: int64) <s maxSingleMappingSize descriptor_example
   \<and> MapExisting (os_example 200704 (Inl PanicNilDereference)) [] ''log'' 0 0
        = Inr \<lparr>memoryPtr = 4294967296, mappedLength = 200704\<rparr>
   \<and> sint (termMaxLength descriptor_example) < 2 ^ 31
   \<and> (\<exists>lb. Wrap descriptor_example (os_example 200704 (Inl PanicNilDereference)) [] ''log''
          = (Inr lb, [Mapped ''log'' 0 0 (Inr \<lparr>memoryPtr = 4294967296, mappedLength = 200704\<rparr>)])
        \<and> mmapFiles lb = [Some \<lparr>memoryPtr = 4294967296, mappedLength = 200704\<rparr>]
        \<and> Buffer lb 0 = Inr \<lparr>bufferPtr = 4294967296, capacity = 65536\<rparr>
        \<and> Buffer lb 1 = Inr \<lparr>bufferPtr = 4294967296 + 65536, capacity = 65536\<rparr>
        \<and> Buffer lb 2 = Inr \<lparr>bufferPtr = 4294967296 + 2 * 65536, capacity = 65536\<rparr>
        \<and> Buffer lb 3 = Inr \<lparr>bufferPtr = 4294967296 + 3 * 65536, capacity = 4096\<rparr>)"
proof -
  let ?os = "os_example 200704 (Inl PanicNilDereference)"
  let ?m = "\<lparr>memoryPtr = 4294967296, mappedLength = 200704\<rparr> :: File"
  have t: "computeTermLength descriptor_example 200704 = 65536"
    by code_simp
  have 1: "GetFileSize ?os ''log'' = Inr 200704"
    by (simp add: os_example_def)
  have 2: "checkTermLength descriptor_example (computeTermLength descriptor_example 200704) = Inr ()"
    by code_simp
  have 3: "(200704 :: int64) <s maxSingleMappingSize descriptor_example"
    by (simp add: descriptor_example_def)
  have 4: "MapExisting ?os [] ''log'' 0 0 = Inr ?m"
    by (simp add: os_example_def)
  have 5: "sint (termMaxLength descriptor_example) < 2 ^ 31"
    by (simp add: descriptor_example_def)
  have m: "logMetaDataLength descriptor_example = 4096"
    by (simp add: descriptor_example_def)
  from Wrap_single_mapping [OF 1 2 3 4 5] obtain lb where
    lb: "Wrap descriptor_example ?os [] ''log'' = (Inr lb, [] @ [Mapped ''log'' 0 0 (Inr ?m)])"
      "mmapFiles lb = [Some ?m]"
      "\<forall>i < PartitionCount. Buffer lb (int i) =
             Inr \<lparr>bufferPtr = memoryPtr ?m + word_of_nat i * computeTermLength descriptor_example 200704,
                  capacity = ucast (computeTermLength descriptor_example 200704)\<rparr>"
      "Buffer lb (int PartitionCount) =
             Inr \<lparr>bufferPtr = memoryPtr ?m + (200704 - scast (logMetaDataLength descriptor_example)),
                  capacity = logMetaDataLength descriptor_example\<rparr>"
    by blast
  from lb(3) [rule_format, of 0] lb(3) [rule_format, of 1] lb(3) [rule_format, of 2]
  have "Buffer lb (int 0) = Inr \<lparr>bufferPtr = 4294967296, capacity = 65536\<rparr>"
    "Buffer lb (int 1) = Inr \<lparr>bufferPtr = 4294967296 + 65536, capacity = 65536\<rparr>"
    "Buffer lb (int 2) = Inr \<lparr>bufferPtr = 4294967296 + 2 * 65536, capacity = 65536\<rparr>"
    by (simp_all add: PartitionCount_def t)
  moreover from lb(4) have "Buffer lb 3 = Inr \<lparr>bufferPtr = 4294967296 + 3 * 65536, capacity = 4096\<rparr>"
    by (simp add: PartitionCount_def m)
  ultimately show ?thesis
    using 1 2 3 4 5 lb(1,2) by auto
qed

text \<open>
  C10. Every \<open>LogBuffers\<close> that \<open>Wrap\<close> returns is fully initialised: the array has
  its \<open>PartitionCount + 1\<close> buffers, each of the \<open>PartitionCount\<close> term buffers is
  wrapped (it is not the zero buffer) with capacity \<open>termLength\<close>, the metadata buffer
  has capacity \<open>logMetaDataLength\<close>, and the overlay is wrapped. A failure is a panic,
  which returns no value at all. The largest term length allowed is taken to fit the
  \<open>int32\<close> of a capacity.
\<close>

theorem Wrap_fully_initialised:
  assumes "Wrap d os h fileName = (Inr lb, h')"
    and "sint (termMaxLength d) < 2 ^ 31"
  shows "\<exists>logLength. GetFileSize os fileName = Inr logLength
     \<and> checkTermLength d (computeTermLength d logLength) = Inr ()
     \<and> length (buffers lb) = PartitionCount + 1
     \<and> (\<forall>i < PartitionCount.
           sint (capacity (buffers lb ! i)) = sint (computeTermLength d logLength)
           \<and> buffers lb ! i \<noteq> Buffer_zero)
     \<and> capacity (buffers lb ! LogMetaDataSectionIndex) = logMetaDataLength d
     \<and> metaBuffer (meta lb) = Some PartitionCount"
proof -
  from Wrap_returns [OF assms(1)] obtain logLength where
    L: "GetFileSize os fileName = Inr logLength"
    and c: "checkTermLength d (computeTermLength d logLength) = Inr ()"
    and n: "length (buffers lb) = 4"
    and caps: "\<forall>j < PartitionCount. capacity (buffers lb ! j) = ucast (computeTermLength d logLength)"
    and m: "capacity (buffers lb ! PartitionCount) = logMetaDataLength d"
    and o: "meta lb = LogBufferMetaData_Wrap PartitionCount 0"
    by blast
  let ?t = "computeTermLength d logLength"
  from c have t: "1 \<le> sint ?t" "sint ?t \<le> sint (termMaxLength d)"
    by (auto simp: checkTermLength_Inr dest: isPowerOfTwo_positive)
  with assms(2) have cap: "sint (ucast ?t :: int32) = sint ?t"
    by (intro sint_ucast_int32) auto
  have "\<forall>i < PartitionCount. sint (capacity (buffers lb ! i)) = sint ?t \<and> buffers lb ! i \<noteq> Buffer_zero"
  proof (intro allI impI)
    fix i assume "i < PartitionCount"
    with caps cap have s: "sint (capacity (buffers lb ! i)) = sint ?t" by simp
    with t have "capacity (buffers lb ! i) \<noteq> 0" by auto
    then have "buffers lb ! i \<noteq> Buffer_zero" by (auto simp: Buffer_zero_def)
    with s show "sint (capacity (buffers lb ! i)) = sint ?t \<and> buffers lb ! i \<noteq> Buffer_zero" by simp
  qed
  with L c n m o show ?thesis
    by (auto simp: PartitionCount_def LogMetaDataSectionIndex_def LogBufferMetaData_Wrap_def)
qed

theorem Wrap_fully_initialised_witness:
  "Wrap descriptor_example (os_example 200704 (Inl PanicNilDereference)) [] ''log'' =
     (Inr logBuffers_200704,
      [Mapped ''log'' 0 0 (Inr \<lparr>memoryPtr = 4294967296, mappedLength = 200704\<rparr>)])
   \<and> sint (termMaxLength descriptor_example) < 2 ^ 31
   \<and> GetFileSize (os_example 200704 (Inl PanicNilDereference)) ''log'' = Inr 200704
   \<and> length (buffers logBuffers_200704) = PartitionCount + 1
   \<and> sint (capacity (buffers logBuffers_200704 ! 0)) = 65536
   \<and> sint (capacity (buffers logBuffers_200704 ! 1)) = 65536
   \<and> sint (capacity (buffers logBuffers_200704 ! 2)) = 65536
   \<and> buffers logBuffers_200704 ! 0 \<noteq> Buffer_zero
   \<and> buffers logBuffers_200704 ! 1 \<noteq> Buffer_zero
   \<and> buffers logBuffers_200704 ! 2 \<noteq> Buffer_zero
   \<and> capacity (buffers logBuffers_200704 ! LogMetaDataSectionIndex) = 4096
   \<and> metaBuffer (meta logBuffers_200704) = Some PartitionCount"
proof -
  let ?os = "os_example 200704 (Inl PanicNilDereference)"
  have b: "sint (termMaxLength descriptor_example) < 2 ^ 31"
    by (simp add: descriptor_example_def)
  have g: "GetFileSize ?os ''log'' = Inr 200704"
    by (simp add: os_example_def)
  have m: "logMetaDataLength descriptor_example = 4096"
    by (simp add: descriptor_example_def)
  from Wrap_fully_initialised [OF Wrap_200704 b] obtain logLength where
    L: "GetFileSize ?os ''log'' = Inr logLength"
    and n: "length (buffers logBuffers_200704) = PartitionCount + 1"
    and caps: "\<forall>i < PartitionCount.
           sint (capacity (buffers logBuffers_200704 ! i)) = sint (computeTermLength descriptor_example logLength)
           \<and> buffers logBuffers_200704 ! i \<noteq> Buffer_zero"
    and c: "capacity (buffers logBuffers_200704 ! LogMetaDataSectionIndex) = logMetaDataLength descriptor_example"
    and o: "metaBuffer (meta logBuffers_200704) = Some PartitionCount"
    by blast
  from L g have "logLength = 200704" by simp
  with caps [rule_format, of 0] caps [rule_format, of 1] caps [rule_format, of 2]
  have "sint (capacity (buffers logBuffers_200704 ! 0)) = 65536 \<and> buffers logBuffers_200704 ! 0 \<noteq> Buffer_zero"
    "sint (capacity (buffers logBuffers_200704 ! 1)) = 65536 \<and> buffers logBuffers_200704 ! 1 \<noteq> Buffer_zero"
    "sint (capacity (buffers logBuffers_200704 ! 2)) = 65536 \<and> buffers logBuffers_200704 ! 2 \<noteq> Buffer_zero"
    by (simp_all add: PartitionCount_def computeTermLength_200704)
  with Wrap_200704 b g n c o m show ?thesis
    by simp
qed

text \<open>
  C9. For every \<open>LogBuffers\<close> that \<open>Wrap\<close> returns, the overlay that \<open>Meta()\<close>
  returns is wrapped at offset 0 over element \<open>PartitionCount\<close> of the array of buffers,
  which is the very buffer that \<open>Buffer(PartitionCount)\<close> returns, the metadata buffer:
  byte \<open>k\<close> of the overlay and byte \<open>k\<close> of that buffer are the same address.
\<close>

theorem Meta_wraps_metadata_buffer:
  assumes "Wrap d os h fileName = (Inr lb, h')"
  shows "metaBuffer (Meta lb) = Some PartitionCount \<and> metaOffset (Meta lb) = 0
     \<and> Buffer lb (int PartitionCount) = Inr (buffers lb ! LogMetaDataSectionIndex)
     \<and> Meta_address lb k = Inr (Buffer_address (buffers lb ! LogMetaDataSectionIndex) k)"
proof -
  from Wrap_returns [OF assms] have
    n: "length (buffers lb) = 4"
    and o: "meta lb = LogBufferMetaData_Wrap PartitionCount 0"
    by blast+
  then show ?thesis
    by (simp add: Meta_address_def Meta_def Buffer_def LogBufferMetaData_Wrap_def
        PartitionCount_def LogMetaDataSectionIndex_def)
qed

theorem Meta_wraps_metadata_buffer_witness:
  "Wrap descriptor_example (os_example 200704 (Inl PanicNilDereference)) [] ''log'' =
     (Inr logBuffers_200704,
      [Mapped ''log'' 0 0 (Inr \<lparr>memoryPtr = 4294967296, mappedLength = 200704\<rparr>)])
   \<and> metaBuffer (Meta logBuffers_200704) = Some PartitionCount
   \<and> metaOffset (Meta logBuffers_200704) = 0
   \<and> Buffer logBuffers_200704 (int PartitionCount) = Inr \<lparr>bufferPtr = 4295163904, capacity = 4096\<rparr>
   \<and> Meta_address logBuffers_200704 24 = Inr 4295163928"
proof -
  have b: "buffers logBuffers_200704 ! LogMetaDataSectionIndex = \<lparr>bufferPtr = 4295163904, capacity = 4096\<rparr>"
    by (simp add: logBuffers_200704_def LogMetaDataSectionIndex_def PartitionCount_def)
  from Meta_wraps_metadata_buffer [OF Wrap_200704, of 24] Wrap_200704 show ?thesis
    by (simp add: b Buffer_address_def)
qed

text \<open>
  C4, as the code has it. For every log file that \<open>Wrap\<close> accepts, the term length of
  the term views is \<open>(logLength - logMetaDataLength) / PartitionCount\<close>, the division
  truncating; it is a power of two within the bounds; and \<open>logLength\<close> lies between
  \<open>PartitionCount * termLength + logMetaDataLength\<close> and that plus
  \<open>PartitionCount - 1\<close>: the remainder of the division is not checked. So a file whose
  computed term length is not a power of two within the bounds is rejected by a panic.
\<close>

theorem Wrap_accepted_term_length:
  assumes "Wrap d os h fileName = (Inr lb, h')"
  shows "\<exists>logLength. GetFileSize os fileName = Inr logLength
     \<and> (\<forall>i < PartitionCount. capacity (buffers lb ! i) = ucast (computeTermLength d logLength))
     \<and> sint (computeTermLength d logLength)
         = (sint logLength - sint (logMetaDataLength d)) sdiv int PartitionCount
     \<and> isPowerOfTwo (computeTermLength d logLength)
     \<and> sint (termMinLength d) \<le> sint (computeTermLength d logLength)
     \<and> sint (computeTermLength d logLength) \<le> sint (termMaxLength d)
     \<and> int PartitionCount * sint (computeTermLength d logLength) + sint (logMetaDataLength d)
         \<le> sint logLength
     \<and> sint logLength
         < int PartitionCount * sint (computeTermLength d logLength) + sint (logMetaDataLength d)
           + int PartitionCount"
proof -
  from Wrap_returns [OF assms] obtain logLength where
    L: "GetFileSize os fileName = Inr logLength"
    and c: "checkTermLength d (computeTermLength d logLength) = Inr ()"
    and caps: "\<forall>j < PartitionCount. capacity (buffers lb ! j) = ucast (computeTermLength d logLength)"
    by blast
  from c have "isPowerOfTwo (computeTermLength d logLength)"
    "sint (termMinLength d) \<le> sint (computeTermLength d logLength)"
    "sint (computeTermLength d logLength) \<le> sint (termMaxLength d)"
    by (simp_all add: checkTermLength_Inr)
  with L caps computeTermLength_accepted [OF c] show ?thesis
    by blast
qed

theorem Wrap_accepted_term_length_witness:
  "Wrap descriptor_example (os_example 200705 (Inl PanicNilDereference)) [] ''log'' =
     (Inr logBuffers_200705,
      [Mapped ''log'' 0 0 (Inr \<lparr>memoryPtr = 4294967296, mappedLength = 200705\<rparr>)])
   \<and> GetFileSize (os_example 200705 (Inl PanicNilDereference)) ''log'' = Inr 200705
   \<and> capacity (buffers logBuffers_200705 ! 0) = 65536
   \<and> capacity (buffers logBuffers_200705 ! 1) = 65536
   \<and> capacity (buffers logBuffers_200705 ! 2) = 65536
   \<and> sint (computeTermLength descriptor_example 200705) = (200705 - 4096) sdiv 3
   \<and> isPowerOfTwo (computeTermLength descriptor_example 200705)
   \<and> sint (termMinLength descriptor_example) \<le> sint (computeTermLength descriptor_example 200705)
   \<and> sint (computeTermLength descriptor_example 200705) \<le> sint (termMaxLength descriptor_example)
   \<and> 3 * sint (computeTermLength descriptor_example 200705) + 4096 \<le> (200705 :: int)
   \<and> (200705 :: int) < 3 * sint (computeTermLength descriptor_example 200705) + 4096 + 3"
proof -
  let ?os = "os_example 200705 (Inl PanicNilDereference)"
  let ?t = "\<lambda>logLength. computeTermLength descriptor_example logLength"
  have g: "GetFileSize ?os ''log'' = Inr 200705"
    by (simp add: os_example_def)
  have m: "sint (logMetaDataLength descriptor_example) = 4096"
    by (simp add: descriptor_example_def)
  from Wrap_accepted_term_length [OF Wrap_200705] obtain logLength where
    L: "GetFileSize ?os ''log'' = Inr logLength"
    and caps: "\<forall>i < PartitionCount. capacity (buffers logBuffers_200705 ! i) = ucast (?t logLength)"
    and rest: "sint (?t logLength) = (sint logLength - sint (logMetaDataLength descriptor_example)) sdiv int PartitionCount"
      "isPowerOfTwo (?t logLength)"
      "sint (termMinLength descriptor_example) \<le> sint (?t logLength)"
      "sint (?t logLength) \<le> sint (termMaxLength descriptor_example)"
      "int PartitionCount * sint (?t logLength) + sint (logMetaDataLength descriptor_example) \<le> sint logLength"
      "sint logLength < int PartitionCount * sint (?t logLength) + sint (logMetaDataLength descriptor_example) + int PartitionCount"
    by blast
  from L g have l: "logLength = 200705" by simp
  from caps [rule_format, of 0] caps [rule_format, of 1] caps [rule_format, of 2]
  have c: "capacity (buffers logBuffers_200705 ! 0) = 65536"
    "capacity (buffers logBuffers_200705 ! 1) = 65536"
    "capacity (buffers logBuffers_200705 ! 2) = 65536"
    by (simp_all add: PartitionCount_def l computeTermLength_200705)
  from rest have "sint (?t 200705) = (200705 - 4096) sdiv 3"
    "isPowerOfTwo (?t 200705)"
    "sint (termMinLength descriptor_example) \<le> sint (?t 200705)"
    "sint (?t 200705) \<le> sint (termMaxLength descriptor_example)"
    "3 * sint (?t 200705) + 4096 \<le> (200705 :: int)"
    "(200705 :: int) < 3 * sint (?t 200705) + 4096 + 3"
    unfolding l m PartitionCount_def by simp_all
  with Wrap_200705 g c show ?thesis
    by simp
qed

text \<open>
  A file of 200705 bytes is accepted, with terms of 65536 bytes and a metadata section
  of 4096: one byte more than \<open>PartitionCount * termLength + logMetaDataLength\<close>.
\<close>

theorem Wrap_accepts_200705:
  "fst (Wrap descriptor_example (os_example 200705 (Inl PanicNilDereference)) [] ''log'')
     = Inr logBuffers_200705
   \<and> sint (200705 :: int64) \<noteq>
       int PartitionCount * sint (computeTermLength descriptor_example 200705)
       + sint (logMetaDataLength descriptor_example)"
  by code_simp

text \<open>
  C7. When a mapping that \<open>Wrap\<close> asks for fails, \<open>Wrap\<close> panics and returns no
  \<open>LogBuffers\<close>: with the error itself when one mapping holds the whole file, with
  "Failed to map the log buffer" when every section gets a mapping of its own.
\<close>

theorem Wrap_mapping_failure_is_fatal:
  assumes "Wrap d os h fileName = (r, h')"
    and "Mapped n off len (Inl e) \<in> set (drop (length h) h')"
  shows "\<exists>logLength. GetFileSize os fileName = Inr logLength
     \<and> r = Inl (if logLength <s maxSingleMappingSize d then PanicError e
                 else PanicString ''Failed to map the log buffer'')"
proof (cases "GetFileSize os fileName")
  case (Inl p)
  with assms show ?thesis by (simp add: Wrap_def)
next
  case L: (Inr logLength)
  let ?t = "computeTermLength d logLength"
  show ?thesis
  proof (cases "checkTermLength d ?t")
    case (Inl p)
    with assms L show ?thesis by (simp add: Wrap_def)
  next
    case c: (Inr u)
    show ?thesis
    proof (cases "logLength <s maxSingleMappingSize d")
      case True
      show ?thesis
      proof (cases "MapExisting os h fileName 0 0")
        case (Inl err)
        with assms L c True show ?thesis
          by (auto simp: Wrap_def wrapSingle_failed)
      next
        case (Inr mmap)
        with assms L c True show ?thesis
          by (auto simp: Wrap_def wrapSingle_mapped)
      qed
    next
      case False
      obtain r1 h1 where w: "wrapMulti d os h fileName logLength ?t new_LogBuffers = (r1, h1)"
        by (cases "wrapMulti d os h fileName logLength ?t new_LogBuffers")
      from wrapMulti_history [OF w] obtain evs where evs: "h1 = h @ evs"
        "\<forall>n off len e. Mapped n off len (Inl e) \<in> set evs \<longrightarrow>
                  r1 = Inl (PanicString ''Failed to map the log buffer'')"
        by blast
      from assms(1) L c False w have hh: "h' = h1" and rr: "(\<exists>p. r1 = Inl p) \<longrightarrow> r = r1"
        by (auto simp: Wrap_def split: sum.splits)
      from assms(2) hh evs(1) have "Mapped n off len (Inl e) \<in> set evs" by simp
      with evs(2) rr have "r = Inl (PanicString ''Failed to map the log buffer'')" by auto
      with L False show ?thesis by simp
    qed
  qed
qed

theorem Wrap_mapping_failure_is_fatal_witness:
  "Wrap descriptor_example (os_no_memory 200704) [] ''log'' =
     (Inl (PanicError ''ENOMEM''), [Mapped ''log'' 0 0 (Inl ''ENOMEM'')])
   \<and> Mapped ''log'' 0 0 (Inl ''ENOMEM'') \<in> set (drop (length ([] :: event list)) [Mapped ''log'' 0 0 (Inl ''ENOMEM'')])
   \<and> GetFileSize (os_no_memory 200704) ''log'' = Inr 200704
   \<and> (200704 :: int64) <s maxSingleMappingSize descriptor_example
   \<and> Wrap descriptor_example (os_no_memory 3221229568) [] ''log'' =
     (Inl (PanicString ''Failed to map the log buffer''),
      [Mapped ''log'' 3221225472 4096 (Inl ''ENOMEM'')])
   \<and> GetFileSize (os_no_memory 3221229568) ''log'' = Inr 3221229568
   \<and> \<not> (3221229568 :: int64) <s maxSingleMappingSize descriptor_example"
proof -
  have w1: "Wrap descriptor_example (os_no_memory 200704) [] ''log'' =
     (Inl (PanicError ''ENOMEM''), [Mapped ''log'' 0 0 (Inl ''ENOMEM'')])"
    by code_simp
  have e1: "Mapped ''log'' 0 0 (Inl ''ENOMEM'')
              \<in> set (drop (length ([] :: event list)) [Mapped ''log'' 0 0 (Inl ''ENOMEM'')])"
    by simp
  have w2: "Wrap descriptor_example (os_no_memory 3221229568) [] ''log'' =
     (Inl (PanicString ''Failed to map the log buffer''),
      [Mapped ''log'' 3221225472 4096 (Inl ''ENOMEM'')])"
    by code_simp
  have e2: "Mapped ''log'' 3221225472 4096 (Inl ''ENOMEM'')
              \<in> set (drop (length ([] :: event list)) [Mapped ''log'' 3221225472 4096 (Inl ''ENOMEM'')])"
    by simp
  have g: "GetFileSize (os_no_memory 200704) ''log'' = Inr 200704"
    "GetFileSize (os_no_memory 3221229568) ''log'' = Inr 3221229568"
    by (simp_all add: os_no_memory_def)
  have s: "(200704 :: int64) <s maxSingleMappingSize descriptor_example"
    "\<not> (3221229568 :: int64) <s maxSingleMappingSize descriptor_example"
    by (simp_all add: descriptor_example_def)
  from Wrap_mapping_failure_is_fatal [OF w1 e1] Wrap_mapping_failure_is_fatal [OF w2 e2]
  show ?thesis
    using w1 e1 w2 g s by simp
qed

text \<open>
  C1, evaluated. The file of \<open>3 * (1 << 30) + 4096\<close> bytes with
  \<open>maxSingleMappingSize = 1 << 30\<close>, every mapping succeeding at a base of its own.
  \<open>make([](*memmap.File), PartitionCount+1)\<close> gives the slice four nil entries, so the
  mappings are appended behind them and \<open>mmapFiles[i+1]\<close> and \<open>mmapFiles[0]\<close> are nil.
  When \<open>GetMemoryPtr\<close> panics on nil, \<open>Wrap\<close> panics after two mappings. When it
  answers the nil address, \<open>Wrap\<close> does the four mappings at the offsets of the claim,
  but all four buffers are wrapped at the nil address: the term buffers do not have
  bases of their own, and the metadata buffer is not at the base of its mapping.
\<close>

theorem Wrap_multi_mapping_nil_slots:
  "Wrap descriptor_example (os_example 3221229568 (Inl PanicNilDereference)) [] ''log'' =
     (Inl PanicNilDereference,
      [Mapped ''log'' 3221225472 4096 (Inr \<lparr>memoryPtr = 4294967296, mappedLength = 4096\<rparr>),
       Mapped ''log'' 0 1073741824 (Inr \<lparr>memoryPtr = 8589934592, mappedLength = 1073741824\<rparr>)])
   \<and> Wrap descriptor_example (os_example 3221229568 (Inr 0)) [] ''log'' =
     (Inr logBuffers_3GiB_nil,
      [Mapped ''log'' 3221225472 4096 (Inr \<lparr>memoryPtr = 4294967296, mappedLength = 4096\<rparr>),
       Mapped ''log'' 0 1073741824 (Inr \<lparr>memoryPtr = 8589934592, mappedLength = 1073741824\<rparr>),
       Mapped ''log'' 1073741824 1073741824 (Inr \<lparr>memoryPtr = 12884901888, mappedLength = 1073741824\<rparr>),
       Mapped ''log'' 2147483648 1073741824 (Inr \<lparr>memoryPtr = 17179869184, mappedLength = 1073741824\<rparr>)])"
  by code_simp

section \<open>Properties of LogBuffers.Close\<close>

text \<open>
  C2, evaluated. A \<open>LogBuffers\<close> with two mappings, where unmapping the first fails and
  unmapping the second succeeds: \<open>Close\<close> does unmap both, but returns nil, the result
  of the last, where the first error is \<open>EINVAL\<close>.
\<close>

theorem Close_returns_last_result:
  "Close os_unmap_fails_once logBuffers_two_regions [] =
     (Inr (None, new_LogBuffers), [Unmapped regionA (Some ''EINVAL''), Unmapped regionB None])
   \<and> firstError [Some ''EINVAL'', None] = Some ''EINVAL''"
  by code_simp

text \<open>
  C6. When \<open>Close\<close> returns, the \<open>LogBuffers\<close> holds no mapping any more, and a second
  \<open>Close\<close> returns nil and leaves the history as it is: it unmaps nothing.
\<close>

theorem Close_idempotent:
  assumes "Close os logBuffers h = (Inr (err, closed), h1)"
  shows "mmapFiles closed = [] \<and> Close os closed h1 = (Inr (None, closed), h1)"
  using assms by (auto simp: Close_def split: prod.splits sum.splits)

theorem Close_idempotent_witness:
  "Close os_unmap_fails_once logBuffers_two_regions [] =
     (Inr (None, new_LogBuffers), [Unmapped regionA (Some ''EINVAL''), Unmapped regionB None])
   \<and> mmapFiles new_LogBuffers = []
   \<and> Close os_unmap_fails_once new_LogBuffers
        [Unmapped regionA (Some ''EINVAL''), Unmapped regionB None] =
     (Inr (None, new_LogBuffers), [Unmapped regionA (Some ''EINVAL''), Unmapped regionB None])"
proof -
  have c: "Close os_unmap_fails_once logBuffers_two_regions [] =
     (Inr (None, new_LogBuffers), [Unmapped regionA (Some ''EINVAL''), Unmapped regionB None])"
    by code_simp
  from Close_idempotent [OF c] c show ?thesis by simp
qed

section \<open>Properties of Aeron.Close\<close>

text \<open>
  C5, as the code has it. \<open>Aeron.Close\<close> closes the conductor and then unmaps the CnC
  file, whatever the conductor's \<open>Close\<close> returned; each error goes to the error handler
  of the context as it occurs; the result is the result of unmapping the CnC file. That
  is the first error of the two steps when the conductor closed without one.
\<close>

theorem Aeron_Close_releases_both:
  assumes "cncFile aeron = Some cnc"
  shows "let r1 = conductorClose (conductor aeron) h;
             h2 = handleIfError r1 (h @ [ConductorClosed r1]);
             r2 = munmap os h2 cnc
         in Aeron_Close os aeron h = (Inr r2, handleIfError r2 (h2 @ [Unmapped cnc r2]))
            \<and> (r1 = None \<longrightarrow> r2 = firstError [r1, r2])"
proof -
  have "r2 = firstError [None, r2]" for r2 :: "error option"
    by (cases r2) simp_all
  with assms show ?thesis
    by (simp add: Aeron_Close_def ClientConductor_Close_def File_Close_def Let_def)
qed

theorem Aeron_Close_releases_both_witness:
  "cncFile aeron_conductor_ok = Some regionA
   \<and> conductorClose (conductor aeron_conductor_ok) [] = None
   \<and> Aeron_Close os_unmap_fails_once aeron_conductor_ok [] =
       (Inr (Some ''EINVAL''),
        [ConductorClosed None, Unmapped regionA (Some ''EINVAL''), ErrorHandled ''EINVAL''])
   \<and> Some ''EINVAL'' = firstError [None, Some ''EINVAL'']"
proof -
  have c: "cncFile aeron_conductor_ok = Some regionA"
    by (simp add: aeron_conductor_ok_def)
  have r1: "conductorClose (conductor aeron_conductor_ok) [] = None"
    by (simp add: aeron_conductor_ok_def)
  have r2: "munmap os_unmap_fails_once [ConductorClosed None] regionA = Some ''EINVAL''"
    by (simp add: os_unmap_fails_once_def)
  from Aeron_Close_releases_both [OF c, of "[]" os_unmap_fails_once] c r1 show ?thesis
    by (simp add: Let_def r2 handleIfError_def)
qed

text \<open>
  The conductor fails to close and the CnC file is unmapped without error:
  \<open>Aeron.Close\<close> returns nil, where the first error is the conductor's.
\<close>

theorem Aeron_Close_returns_last_result:
  "Aeron_Close os_unmap_fails_once aeron_example [] =
     (Inr None,
      [ConductorClosed (Some ''failed to stop conductor''),
       ErrorHandled ''failed to stop conductor'',
       Unmapped regionB None])
   \<and> firstError [Some ''failed to stop conductor'', None] = Some ''failed to stop conductor''"
  by code_simp

section \<open>Properties of Aeron.AddSubscription and Aeron.AddPublication\<close>

text \<open>
  C8, as the code has it. \<open>AddSubscription\<close> and \<open>AddPublication\<close> register with the
  conductor and return a fresh, empty channel of one slot whatever the lookups answer:
  they wait for no answer of the driver. The goroutine they start looks the
  registration up, again at once when the first answer is nil, and from then on after
  one call of \<open>Idle(0)\<close> for each nil answer. When the registration resolves at a lookup,
  the goroutine sends the object on the channel and closes the channel. The loop tests
  no deadline: as long as the answers are nil it is still polling, after any number of
  rounds, and has sent nothing.
\<close>

theorem Add_returns_channel_and_goroutine_polls:
  "fst (Aeron_AddSubscription (c\<lparr>FindSubscription := fs\<rparr>) channel streamID) = make_chan 1
   \<and> snd (Aeron_AddSubscription c channel streamID) = AddSubscription c channel streamID
   \<and> (resolvesAt (FindSubscription c regID) k s \<and> k \<le> fuel \<longrightarrow>
        AddSubscription_goroutine c fuel regID (make_chan 1)
          = (Exited \<lparr>chanCapacity = 1, chanQueue = [s], chanClosed = True\<rparr>,
             nilPolls regID k @ [Polled regID (Some s), Sent s, ChannelClosed]))
   \<and> ((\<forall>n. FindSubscription c regID n = Inr None) \<longrightarrow>
        AddSubscription_goroutine c fuel regID (make_chan 1)
          = (StillPolling, Polled regID None # concat (replicate fuel [Polled regID None, Idled 0])))
   \<and> fst (Aeron_AddPublication (c\<lparr>FindPublication := fp\<rparr>) channel streamID) = make_chan 1
   \<and> snd (Aeron_AddPublication c channel streamID) = AddPublication c channel streamID
   \<and> (resolvesAt (FindPublication c regID) k p \<and> k \<le> fuel \<longrightarrow>
        AddPublication_goroutine c fuel regID (make_chan 1)
          = (Exited \<lparr>chanCapacity = 1, chanQueue = [p], chanClosed = True\<rparr>,
             nilPolls regID k @ [Polled regID (Some p), Sent p, ChannelClosed]))
   \<and> ((\<forall>n. FindPublication c regID n = Inr None) \<longrightarrow>
        AddPublication_goroutine c fuel regID (make_chan 1)
          = (StillPolling, Polled regID None # concat (replicate fuel [Polled regID None, Idled 0])))"
proof (intro conjI impI)
  show "fst (Aeron_AddSubscription (c\<lparr>FindSubscription := fs\<rparr>) channel streamID) = make_chan 1"
    by (simp add: Aeron_AddSubscription_def)
  show "snd (Aeron_AddSubscription c channel streamID) = AddSubscription c channel streamID"
    by (simp add: Aeron_AddSubscription_def)
  show "fst (Aeron_AddPublication (c\<lparr>FindPublication := fp\<rparr>) channel streamID) = make_chan 1"
    by (simp add: Aeron_AddPublication_def)
  show "snd (Aeron_AddPublication c channel streamID) = AddPublication c channel streamID"
    by (simp add: Aeron_AddPublication_def)
next
  assume "resolvesAt (FindSubscription c regID) k s \<and> k \<le> fuel"
  then show "AddSubscription_goroutine c fuel regID (make_chan 1)
          = (Exited \<lparr>chanCapacity = 1, chanQueue = [s], chanClosed = True\<rparr>,
             nilPolls regID k @ [Polled regID (Some s), Sent s, ChannelClosed])"
    unfolding AddSubscription_goroutine_def by (intro goroutine_found) simp_all
next
  assume "\<forall>n. FindSubscription c regID n = Inr None"
  then show "AddSubscription_goroutine c fuel regID (make_chan 1)
          = (StillPolling, Polled regID None # concat (replicate fuel [Polled regID None, Idled 0]))"
    unfolding AddSubscription_goroutine_def by (rule goroutine_pending)
next
  assume "resolvesAt (FindPublication c regID) k p \<and> k \<le> fuel"
  then show "AddPublication_goroutine c fuel regID (make_chan 1)
          = (Exited \<lparr>chanCapacity = 1, chanQueue = [p], chanClosed = True\<rparr>,
             nilPolls regID k @ [Polled regID (Some p), Sent p, ChannelClosed])"
    unfolding AddPublication_goroutine_def by (intro goroutine_found) simp_all
next
  assume "\<forall>n. FindPublication c regID n = Inr None"
  then show "AddPublication_goroutine c fuel regID (make_chan 1)
          = (StillPolling, Polled regID None # concat (replicate fuel [Polled regID None, Idled 0]))"
    unfolding AddPublication_goroutine_def by (rule goroutine_pending)
qed

theorem Add_returns_channel_and_goroutine_polls_witness:
  "Aeron_AddSubscription registrations_example ''aeron:udp?endpoint=localhost:40123'' 1001
     = (\<lparr>chanCapacity = 1, chanQueue = [], chanClosed = False\<rparr>, 7)
   \<and> Aeron_AddPublication registrations_example ''aeron:udp?endpoint=localhost:40123'' 1001
     = (\<lparr>chanCapacity = 1, chanQueue = [], chanClosed = False\<rparr>, 8)
   \<and> resolvesAt (FindSubscription registrations_example 7) 3 ''subscription 7''
   \<and> AddSubscription_goroutine registrations_example 3 7 (make_chan 1)
     = (Exited \<lparr>chanCapacity = 1, chanQueue = [''subscription 7''], chanClosed = True\<rparr>,
        [Polled 7 None, Polled 7 None, Idled 0, Polled 7 None, Idled 0,
         Polled 7 (Some ''subscription 7''), Sent ''subscription 7'', ChannelClosed])
   \<and> resolvesAt (FindPublication registrations_example 8) 1 ''publication 8''
   \<and> AddPublication_goroutine registrations_example 3 8 (make_chan 1)
     = (Exited \<lparr>chanCapacity = 1, chanQueue = [''publication 8''], chanClosed = True\<rparr>,
        [Polled 8 None, Polled 8 (Some ''publication 8''), Sent ''publication 8'', ChannelClosed])
   \<and> AddSubscription_goroutine registrations_pending 4 7 (make_chan 1)
     = (StillPolling,
        [Polled 7 None, Polled 7 None, Idled 0, Polled 7 None, Idled 0,
         Polled 7 None, Idled 0, Polled 7 None, Idled 0])
   \<and> AddPublication_goroutine registrations_pending 4 8 (make_chan 1)
     = (StillPolling,
        [Polled 8 None, Polled 8 None, Idled 0, Polled 8 None, Idled 0,
         Polled 8 None, Idled 0, Polled 8 None, Idled 0])"
proof -
  let ?ch = "''aeron:udp?endpoint=localhost:40123''"
  have rs: "resolvesAt (FindSubscription registrations_example 7) 3 ''subscription 7''"
    by (simp add: resolvesAt_def registrations_example_def)
  have rp: "resolvesAt (FindPublication registrations_example 8) 1 ''publication 8''"
    by (simp add: resolvesAt_def registrations_example_def)
  have ns: "\<forall>n. FindSubscription registrations_pending 7 n = Inr None"
    and np: "\<forall>n. FindPublication registrations_pending 8 n = Inr None"
    by (simp_all add: registrations_pending_def)
  have a: "AddSubscription registrations_example ?ch 1001 = 7"
    "AddPublication registrations_example ?ch 1001 = 8"
    by (simp_all add: registrations_example_def)
  note s = Add_returns_channel_and_goroutine_polls
    [where c = registrations_example and fs = "FindSubscription registrations_example" and fp = "FindPublication registrations_example"
       and channel = ?ch and streamID = 1001 and regID = 7 and k = 3 and fuel = 3
       and s = "''subscription 7''" and p = "''publication 8''"]
  note p = Add_returns_channel_and_goroutine_polls
    [where c = registrations_example and fs = "FindSubscription registrations_example" and fp = "FindPublication registrations_example"
       and channel = ?ch and streamID = 1001 and regID = 8 and k = 1 and fuel = 3
       and s = "''subscription 7''" and p = "''publication 8''"]
  note n7 = Add_returns_channel_and_goroutine_polls
    [where c = registrations_pending and fs = "FindSubscription registrations_pending" and fp = "FindPublication registrations_pending"
       and channel = ?ch and streamID = 1001 and regID = 7 and k = 0 and fuel = 4
       and s = "''subscription 7''" and p = "''publication 8''"]
  note n8 = Add_returns_channel_and_goroutine_polls
    [where c = registrations_pending and fs = "FindSubscription registrations_pending" and fp = "FindPublication registrations_pending"
       and channel = ?ch and streamID = 1001 and regID = 8 and k = 0 and fuel = 4
       and s = "''subscription 7''" and p = "''publication 8''"]
  have "Aeron_AddSubscription registrations_example ?ch 1001
          = (\<lparr>chanCapacity = 1, chanQueue = [], chanClosed = False\<rparr>, 7)"
    "Aeron_AddPublication registrations_example ?ch 1001
          = (\<lparr>chanCapacity = 1, chanQueue = [], chanClosed = False\<rparr>, 8)"
    using s a by (simp_all add: prod_eq_iff make_chan_def)
  moreover have "AddSubscription_goroutine registrations_example 3 7 (make_chan 1)
     = (Exited \<lparr>chanCapacity = 1, chanQueue = [''subscription 7''], chanClosed = True\<rparr>,
        [Polled 7 None, Polled 7 None, Idled 0, Polled 7 None, Idled 0,
         Polled 7 (Some ''subscription 7''), Sent ''subscription 7'', ChannelClosed])"
    using s rs by (simp add: numeral_3_eq_3)
  moreover have "AddPublication_goroutine registrations_example 3 8 (make_chan 1)
     = (Exited \<lparr>chanCapacity = 1, chanQueue = [''publication 8''], chanClosed = True\<rparr>,
        [Polled 8 None, Polled 8 (Some ''publication 8''), Sent ''publication 8'', ChannelClosed])"
    using p rp by simp
  moreover have "AddSubscription_goroutine registrations_pending 4 7 (make_chan 1)
     = (StillPolling,
        [Polled 7 None, Polled 7 None, Idled 0, Polled 7 None, Idled 0,
         Polled 7 None, Idled 0, Polled 7 None, Idled 0])"
    using n7 ns by (simp add: numeral_eq_Suc)
  moreover have "AddPublication_goroutine registrations_pending 4 8 (make_chan 1)
     = (StillPolling,
        [Polled 8 None, Polled 8 None, Idled 0, Polled 8 None, Idled 0,
         Polled 8 None, Idled 0, Polled 8 None, Idled 0])"
    using n8 np by (simp add: numeral_eq_Suc)
  ultimately show ?thesis
    using rs rp by simp
qed

text \<open>
  Nothing resolves: after the first lookup and two rounds of the loop each goroutine
  is still polling and has sent nothing. No call of \<open>Idle\<close> lies between the first
  two lookups.
\<close>

theorem goroutine_polls_without_deadline:
  "AddSubscription_goroutine registrations_pending 2 7 (make_chan 1)
     = (StillPolling, [Polled 7 None, Polled 7 None, Idled 0, Polled 7 None, Idled 0])
   \<and> AddPublication_goroutine registrations_pending 2 8 (make_chan 1)
     = (StillPolling, [Polled 8 None, Polled 8 None, Idled 0, Polled 8 None, Idled 0])"
  by code_simp

end
